theory Spec2Isabelle
  imports Complex_Main "HOL-Library.Word" "HOL-Library.AList"
begin

section \<open>JavaScript values\<close>

text \<open>
  A JavaScript string is a sequence of UTF-16 code units; \<open>length\<close>, \<open>includes\<close>,
  \<open>startsWith\<close> and \<open>trim\<close> all work on code units. String literals of the
  source are ASCII and are written \<open>str ''...''\<close>.
\<close>

type_synonym jsstring = "16 word list"

definition str :: "string \<Rightarrow> jsstring" where
  "str s = map of_char s"

text \<open>
  The values that reach the code: what \<open>JSON.parse\<close> returns, what object literals
  and spreads build, and \<open>undefined\<close>. A number is a finite double, which is a real
  (\<open>NaN\<close> and the infinities are not JSON). An object carries its own enumerable
  properties in enumeration order. What an object inherits from \<open>Object.prototype\<close> is
  modelled where the code looks a key of foreign data up in a plain object, in
  \<open>getInitialProviderSettings\<close>.
\<close>

datatype jsval =
    JUndefined
  | JNull
  | JBool bool
  | JNum real
  | JStr jsstring
  | JArr "jsval list"
  | JObj "(jsstring \<times> jsval) list"

datatype error = SyntaxError | TypeError | ReferenceError | OtherError

fun truthy :: "jsval \<Rightarrow> bool" where
  "truthy JUndefined = False"
| "truthy JNull = False"
| "truthy (JBool b) = b"
| "truthy (JNum r) = (r \<noteq> 0)"
| "truthy (JStr s) = (s \<noteq> [])"
| "truthy (JArr xs) = True"
| "truthy (JObj ps) = True"

text \<open>\<open>a || b\<close>: the first operand when it is truthy, the second otherwise.\<close>

definition js_or :: "jsval \<Rightarrow> jsval \<Rightarrow> jsval" where
  "js_or a b = (if truthy a then a else b)"

subsection \<open>String methods\<close>

fun String_startsWith :: "jsstring \<Rightarrow> jsstring \<Rightarrow> bool" where
  "String_startsWith s [] = True"
| "String_startsWith [] (p # ps) = False"
| "String_startsWith (c # cs) (p # ps) = (c = p \<and> String_startsWith cs ps)"

fun String_includes :: "jsstring \<Rightarrow> jsstring \<Rightarrow> bool" where
  "String_includes [] sub = (sub = [])"
| "String_includes (c # cs) sub = (String_startsWith (c # cs) sub \<or> String_includes cs sub)"

text \<open>
  \<open>trim\<close> strips the code units of ECMAScript's WhiteSpace and LineTerminator
  productions from both ends.
\<close>

definition is_whitespace :: "16 word \<Rightarrow> bool" where
  "is_whitespace c =
     (c \<in> {0x9, 0xA, 0xB, 0xC, 0xD, 0x20, 0xA0, 0x1680, 0x2028, 0x2029, 0x202F, 0x205F,
            0x3000, 0xFEFF}
      \<or> (0x2000 \<le> c \<and> c \<le> 0x200A))"

definition String_trim :: "jsstring \<Rightarrow> jsstring" where
  "String_trim s = rev (dropWhile is_whitespace (rev (dropWhile is_whitespace s)))"

section \<open>The detector: \<open>api.configured-providers.ts\<close>\<close>

definition LOCAL_PROVIDERS :: "jsstring list" where
  "LOCAL_PROVIDERS = [str ''OpenAILike'', str ''LMStudio'', str ''Ollama'']"

datatype ConfigMethod = environment | none

record ConfiguredProvider =
  name :: jsstring
  isConfigured :: bool
  configMethod :: ConfigMethod

text \<open>
  The provider registry (\<open>LLMManager\<close>) is not part of the sources; of a provider
  instance the loader reads only \<open>config.baseUrlKey\<close> and \<open>config.apiTokenKey\<close>
  (each a string or undefined), and of the manager only \<open>getProvider\<close> and \<open>env\<close>.
\<close>

record ProviderConfig =
  baseUrlKey :: "jsstring option"
  apiTokenKey :: "jsstring option"

record LLMManager =
  getProvider :: "jsstring \<Rightarrow> ProviderConfig option"
  env :: "jsstring \<Rightarrow> jsval"

text \<open>
  What one request sees: \<open>context?.cloudflare?.env\<close> (\<open>None\<close> when a link of the
  optional chain is undefined), \<open>process.env\<close> (\<open>None\<close> when the global
  \<open>process\<close> does not exist, so that reading it throws), and the outcome of
  \<open>LLMManager.getInstance\<close>.
\<close>

record request =
  cloudflare_env :: "(jsstring \<Rightarrow> jsval) option"
  process_env :: "(jsstring \<Rightarrow> jsval) option"
  getInstance :: "error + LLMManager"

definition cloudflare_lookup :: "request \<Rightarrow> jsstring \<Rightarrow> jsval" where
  "cloudflare_lookup req k = (case cloudflare_env req of None \<Rightarrow> JUndefined | Some e \<Rightarrow> e k)"

definition isValidEnvValue :: "jsval \<Rightarrow> bool" where
  "isValidEnvValue envBaseUrl =
     (truthy envBaseUrl \<and>
      (case envBaseUrl of
         JStr s \<Rightarrow>
           length (String_trim s) > 0 \<and>
           \<not> String_includes s (str ''your_'') \<and>
           \<not> String_includes s (str ''_here'') \<and>
           String_startsWith s (str ''http'')
       | _ \<Rightarrow> False))"

definition isValidApiToken :: "jsval \<Rightarrow> bool" where
  "isValidApiToken envApiToken =
     (truthy envApiToken \<and>
      (case envApiToken of
         JStr s \<Rightarrow>
           length (String_trim s) > 0 \<and>
           \<not> String_includes s (str ''your_'') \<and>
           \<not> String_includes s (str ''_here'') \<and>
           length s > 10
       | _ \<Rightarrow> False))"

text \<open>
  The base-URL block. The three lookups are evaluated into constants before
  they are combined, so a missing \<open>process\<close> throws whatever the first source holds.
  The result is the value of \<open>isConfigured\<close> after the block.
\<close>

definition check_baseUrl :: "request \<Rightarrow> LLMManager \<Rightarrow> ProviderConfig \<Rightarrow> error + bool" where
  "check_baseUrl req llmManager config =
     (case baseUrlKey config of
        None \<Rightarrow> Inr False
      | Some baseUrlEnvVar \<Rightarrow>
          if baseUrlEnvVar = [] then Inr False
          else
            (case process_env req of
               None \<Rightarrow> Inl ReferenceError
             | Some penv \<Rightarrow>
                 let cloudflareEnv = cloudflare_lookup req baseUrlEnvVar;
                     processEnv = penv baseUrlEnvVar;
                     managerEnv = env llmManager baseUrlEnvVar;
                     envBaseUrl = js_or (js_or cloudflareEnv processEnv) managerEnv
                 in Inr (isValidEnvValue envBaseUrl)))"

text \<open>
  The API-token block, entered only when the base-URL block left \<open>isConfigured\<close>
  false. Here the lookups are operands of \<open>||\<close>, so \<open>process.env\<close> is read only when
  the request-scoped value is falsy.
\<close>

definition check_apiToken ::
  "request \<Rightarrow> LLMManager \<Rightarrow> ProviderConfig \<Rightarrow> bool \<Rightarrow> error + bool" where
  "check_apiToken req llmManager config isConfigured0 =
     (case apiTokenKey config of
        None \<Rightarrow> Inr isConfigured0
      | Some apiTokenEnvVar \<Rightarrow>
          if apiTokenEnvVar = [] \<or> isConfigured0 then Inr isConfigured0
          else if truthy (cloudflare_lookup req apiTokenEnvVar)
          then Inr (isValidApiToken (cloudflare_lookup req apiTokenEnvVar))
          else
            (case process_env req of
               None \<Rightarrow> Inl ReferenceError
             | Some penv \<Rightarrow>
                 Inr (isValidApiToken
                        (js_or (penv apiTokenEnvVar) (env llmManager apiTokenEnvVar)))))"

text \<open>One iteration of the loop over \<open>LOCAL_PROVIDERS\<close>: the entry pushed for a provider.\<close>

definition detect_provider ::
  "request \<Rightarrow> LLMManager \<Rightarrow> jsstring \<Rightarrow> error + ConfiguredProvider" where
  "detect_provider req llmManager providerName =
     (case getProvider llmManager providerName of
        None \<Rightarrow>
          Inr \<lparr>name = providerName, isConfigured = False, configMethod = none\<rparr>
      | Some config \<Rightarrow>
          (case check_baseUrl req llmManager config of
             Inl e \<Rightarrow> Inl e
           | Inr c1 \<Rightarrow>
               (case check_apiToken req llmManager config c1 of
                  Inl e \<Rightarrow> Inl e
                | Inr c2 \<Rightarrow>
                    Inr \<lparr>name = providerName, isConfigured = c2,
                         configMethod = (if c2 then environment else none)\<rparr>)))"

fun detect_all ::
  "request \<Rightarrow> LLMManager \<Rightarrow> jsstring list \<Rightarrow> error + ConfiguredProvider list" where
  "detect_all req llmManager [] = Inr []"
| "detect_all req llmManager (providerName # rest) =
     (case detect_provider req llmManager providerName of
        Inl e \<Rightarrow> Inl e
      | Inr entry \<Rightarrow>
          (case detect_all req llmManager rest of
             Inl e \<Rightarrow> Inl e
           | Inr entries \<Rightarrow> Inr (entry # entries)))"

text \<open>The body of the \<open>try\<close> block, and the loader with its \<open>catch\<close>.\<close>

definition loader_try :: "request \<Rightarrow> error + ConfiguredProvider list" where
  "loader_try req =
     (case getInstance req of
        Inl e \<Rightarrow> Inl e
      | Inr llmManager \<Rightarrow> detect_all req llmManager LOCAL_PROVIDERS)"

definition loader :: "request \<Rightarrow> ConfiguredProvider list" where
  "loader req =
     (case loader_try req of
        Inr configuredProviders \<Rightarrow> configuredProviders
      | Inl e \<Rightarrow>
          map (\<lambda>n. \<lparr>name = n, isConfigured = False, configMethod = none\<rparr>) LOCAL_PROVIDERS)"

section \<open>Objects, arrays and JSON\<close>

text \<open>
  Reading a property: \<open>TypeError\<close> on \<open>null\<close> and \<open>undefined\<close>, the own property
  or \<open>undefined\<close> on an object. The code reads only \<open>settings\<close> and \<open>enabled\<close>,
  which no string, number, boolean or array has.
\<close>

definition member :: "jsval \<Rightarrow> jsstring \<Rightarrow> error + jsval" where
  "member v k =
     (case v of
        JUndefined \<Rightarrow> Inl TypeError
      | JNull \<Rightarrow> Inl TypeError
      | JObj ps \<Rightarrow> Inr (case map_of ps k of None \<Rightarrow> JUndefined | Some x \<Rightarrow> x)
      | _ \<Rightarrow> Inr JUndefined)"

text \<open>The decimal name of an array index.\<close>

fun index_key :: "nat \<Rightarrow> jsstring" where
  "index_key n =
     (if n < 10 then [of_nat (48 + n)]
      else index_key (n div 10) @ [of_nat (48 + n mod 10)])"

declare index_key.simps [simp del]

definition indexed :: "jsval list \<Rightarrow> (jsstring \<times> jsval) list" where
  "indexed xs = zip (map index_key [0..<length xs]) xs"

text \<open>
  The own enumerable properties of a value: what a spread \<open>{...v}\<close> copies and what
  \<open>Object.entries\<close> lists. \<open>null\<close>, \<open>undefined\<close>, numbers and booleans have none.
\<close>

definition own_entries :: "jsval \<Rightarrow> (jsstring \<times> jsval) list" where
  "own_entries v =
     (case v of
        JObj ps \<Rightarrow> ps
      | JArr xs \<Rightarrow> indexed xs
      | JStr s \<Rightarrow> indexed (map (\<lambda>c. JStr [c]) s)
      | _ \<Rightarrow> [])"

definition Object_entries :: "jsval \<Rightarrow> error + (jsstring \<times> jsval) list" where
  "Object_entries v =
     (if v = JNull \<or> v = JUndefined then Inl TypeError else Inr (own_entries v))"

text \<open>\<open>{...target, ...source}\<close>: the properties of the source are set one by one.\<close>

definition assign ::
  "(jsstring \<times> jsval) list \<Rightarrow> (jsstring \<times> jsval) list \<Rightarrow> (jsstring \<times> jsval) list" where
  "assign target source = foldl (\<lambda>acc kv. AList.update (fst kv) (snd kv) acc) target source"

text \<open>
  \<open>xs.includes(name)\<close> for a string \<open>name\<close>: membership in an array, substring test
  on a string, \<open>TypeError\<close> on anything else (no such method).
\<close>

definition js_includes :: "jsval \<Rightarrow> jsstring \<Rightarrow> error + bool" where
  "js_includes v n =
     (case v of
        JArr xs \<Rightarrow> Inr (JStr n \<in> set xs)
      | JStr s \<Rightarrow> Inr (String_includes s n)
      | _ \<Rightarrow> Inl TypeError)"

text \<open>
  Iteration, as the array spread \<open>[...v]\<close> does it: the elements of an array, the code
  points of a string (a surrogate pair is one element), \<open>TypeError\<close> otherwise.
\<close>

fun code_points :: "jsstring \<Rightarrow> jsstring list" where
  "code_points [] = []"
| "code_points [c] = [[c]]"
| "code_points (c # d # cs) =
     (if 0xD800 \<le> c \<and> c \<le> 0xDBFF \<and> 0xDC00 \<le> d \<and> d \<le> 0xDFFF
      then [c, d] # code_points cs
      else [c] # code_points (d # cs))"

definition js_iterate :: "jsval \<Rightarrow> error + jsval list" where
  "js_iterate v =
     (case v of
        JArr xs \<Rightarrow> Inr xs
      | JStr s \<Rightarrow> Inr (map JStr (code_points s))
      | _ \<Rightarrow> Inl TypeError)"

text \<open>
  \<open>new Set(xs)\<close> keeps the first of the elements that are the same value. Primitives are
  the same when equal; the arrays and objects at two positions of a parsed list are two
  references, never the same.
\<close>

fun is_primitive :: "jsval \<Rightarrow> bool" where
  "is_primitive (JArr xs) = False"
| "is_primitive (JObj ps) = False"
| "is_primitive v = True"

definition SameValueZero :: "jsval \<Rightarrow> jsval \<Rightarrow> bool" where
  "SameValueZero a b = (is_primitive a \<and> a = b)"

definition Set_add :: "jsval list \<Rightarrow> jsval \<Rightarrow> jsval list" where
  "Set_add seen x = (if \<exists>y \<in> set seen. SameValueZero y x then seen else seen @ [x])"

definition new_Set :: "jsval list \<Rightarrow> jsval list" where
  "new_Set xs = foldl Set_add [] xs"

text \<open>
  What \<open>JSON.parse (JSON.stringify v)\<close> is: properties holding \<open>undefined\<close> are dropped
  and \<open>undefined\<close> array elements become \<open>null\<close>.
\<close>

fun to_json :: "jsval \<Rightarrow> jsval" where
  "to_json (JArr xs) = JArr (map (\<lambda>x. if x = JUndefined then JNull else to_json x) xs)"
| "to_json (JObj ps) =
     JObj (map (\<lambda>kv. (fst kv, to_json (snd kv))) (filter (\<lambda>kv. snd kv \<noteq> JUndefined) ps))"
| "to_json v = v"

section \<open>Local storage\<close>

text \<open>
  An item of \<open>localStorage\<close> is a string. The code only tests it for emptiness and hands
  it to \<open>JSON.parse\<close>, so an item is represented by what that gives: the empty string,
  a text that is not JSON (\<open>SyntaxError\<close>), or the document it parses to.
\<close>

datatype item = EmptyText | Unparseable | Doc jsval

type_synonym storage = "jsstring \<Rightarrow> item option"

fun item_truthy :: "item \<Rightarrow> bool" where
  "item_truthy EmptyText = False"
| "item_truthy Unparseable = True"
| "item_truthy (Doc v) = True"

fun JSON_parse :: "item \<Rightarrow> error + jsval" where
  "JSON_parse (Doc v) = Inr v"
| "JSON_parse EmptyText = Inl SyntaxError"
| "JSON_parse Unparseable = Inl SyntaxError"

text \<open>\<open>JSON.stringify\<close> of \<open>undefined\<close> is \<open>undefined\<close>, stored as the text "undefined".\<close>

definition JSON_stringify :: "jsval \<Rightarrow> item" where
  "JSON_stringify v = (if v = JUndefined then Unparseable else Doc (to_json v))"

definition PROVIDER_SETTINGS_KEY :: jsstring where
  "PROVIDER_SETTINGS_KEY = str ''provider_settings''"

definition AUTO_ENABLED_KEY :: jsstring where
  "AUTO_ENABLED_KEY = str ''auto_enabled_providers''"

section \<open>The reconciler: the provider settings store\<close>

text \<open>
  \<open>PROVIDER_LIST\<close> is imported from a module that is not part of the sources, so it
  is a parameter. A provider of the list has a \<open>name\<close> and further own properties
  (its models, links, icon), which the spread \<open>{...provider}\<close> copies.
\<close>

datatype ProviderInfo =
  ProviderInfo (provider_name: jsstring) (provider_props: "(jsstring \<times> jsval) list")

definition provider_entries :: "ProviderInfo \<Rightarrow> (jsstring \<times> jsval) list" where
  "provider_entries provider =
     (str ''name'', JStr (provider_name provider)) # provider_props provider"

text \<open>
  The state: the value of \<open>providersStore\<close> (an object, provider name to
  \<open>IProviderConfig\<close>) and \<open>localStorage\<close>. \<open>providersStore.get()\<close> returns
  the store's own object, so an assignment to one of its properties is already a change of
  the store.
\<close>

record app_state =
  providersStore :: "(jsstring \<times> jsval) list"
  localStorage :: storage

subsection \<open>\<open>getInitialProviderSettings\<close>\<close>

text \<open>The object literal built for one provider, as its property list.\<close>

definition default_config :: "ProviderInfo \<Rightarrow> (jsstring \<times> jsval) list" where
  "default_config provider =
     AList.update (str ''settings'')
       (JObj [(str ''enabled'', JBool (provider_name provider \<notin> set LOCAL_PROVIDERS))])
       (provider_entries provider)"

text \<open>
  The first loop, which makes the entry of each provider under its name. Under the one name
  \<open>__proto__\<close> the assignment would set the prototype of the map and make no entry;
  what is proved of the keys of the map assumes that no provider has that name.
\<close>

definition default_settings ::
  "ProviderInfo list \<Rightarrow> (jsstring \<times> (jsstring \<times> jsval) list) list" where
  "default_settings PROVIDER_LIST =
     foldl (\<lambda>initialSettings provider.
              AList.update (provider_name provider) (default_config provider) initialSettings)
       [] PROVIDER_LIST"

text \<open>
  \<open>initialSettings\<close> is a plain object, so \<open>initialSettings[key]\<close> finds, besides
  the entries the first loop made, what the object inherits from \<open>Object.prototype\<close>: the
  prototype itself under \<open>__proto__\<close>, a built-in function under the name of each of
  its methods, and under \<open>settings\<close> what the overlay loop may have assigned there.
\<close>

definition Object_prototype_methods :: "jsstring list" where
  "Object_prototype_methods =
     [str ''constructor'', str ''hasOwnProperty'', str ''isPrototypeOf'',
      str ''propertyIsEnumerable'', str ''toLocaleString'', str ''toString'', str ''valueOf'',
      str ''__defineGetter__'', str ''__defineSetter__'', str ''__lookupGetter__'',
      str ''__lookupSetter__'']"

definition Object_prototype_names :: "jsstring list" where
  "Object_prototype_names = str ''__proto__'' # Object_prototype_methods"

datatype found =
    OwnConfig "(jsstring \<times> jsval) list"
  | PrototypeObject
  | BuiltinFunction
  | InheritedSettings jsval
  | NotFound

definition lookup_key ::
  "(jsstring \<times> (jsstring \<times> jsval) list) list \<Rightarrow> jsval \<Rightarrow> jsstring \<Rightarrow> found" where
  "lookup_key initialSettings prototype_settings key =
     (case map_of initialSettings key of
        Some config \<Rightarrow> OwnConfig config
      | None \<Rightarrow>
          if key = str ''__proto__'' then PrototypeObject
          else if key \<in> set Object_prototype_methods then BuiltinFunction
          else if key = str ''settings'' then InheritedSettings prototype_settings
          else NotFound)"

text \<open>
  \<open>value.settings\<close> for a value of the parsed snapshot: \<open>TypeError\<close> on \<open>null\<close>,
  the own property of an object that has one, and otherwise what
  \<open>Object.prototype.settings\<close> holds, which is \<open>undefined\<close> until the loop assigns it.
\<close>

definition read_settings :: "jsval \<Rightarrow> jsval \<Rightarrow> error + jsval" where
  "read_settings prototype_settings v =
     (case v of
        JUndefined \<Rightarrow> Inl TypeError
      | JNull \<Rightarrow> Inl TypeError
      | JObj ps \<Rightarrow>
          Inr (case map_of ps (str ''settings'') of None \<Rightarrow> prototype_settings | Some s \<Rightarrow> s)
      | _ \<Rightarrow> Inr prototype_settings)"

text \<open>
  The \<open>forEach\<close> over the entries of the parsed snapshot, with the map and the value of
  \<open>Object.prototype.settings\<close> as its state. The guard lets a key pass when what it
  finds is truthy; the assignment then reads \<open>value.settings\<close>, which throws on
  \<open>null\<close>, and stores it: in the provider's entry, on a built-in function (where
  nothing reads it), or on \<open>Object.prototype\<close>. The \<open>catch\<close> around the loop only
  logs, so what was assigned before a throw stays. The result is \<open>None\<close> in one case,
  which is outside this model: the key \<open>settings\<close> finds a truthy inherited value and
  the loop assigns a property of that value, which other objects share.
\<close>

fun overlay_saved ::
  "(jsstring \<times> jsval) list \<Rightarrow> (jsstring \<times> (jsstring \<times> jsval) list) list \<Rightarrow> jsval
     \<Rightarrow> (jsstring \<times> (jsstring \<times> jsval) list) list option" where
  "overlay_saved [] initialSettings prototype_settings = Some initialSettings"
| "overlay_saved ((key, val) # rest) initialSettings prototype_settings =
     (case lookup_key initialSettings prototype_settings key of
        NotFound \<Rightarrow> overlay_saved rest initialSettings prototype_settings
      | OwnConfig config \<Rightarrow>
          (case read_settings prototype_settings val of
             Inl e \<Rightarrow> Some initialSettings
           | Inr s \<Rightarrow>
               overlay_saved rest
                 (AList.update key (AList.update (str ''settings'') s config) initialSettings)
                 prototype_settings)
      | BuiltinFunction \<Rightarrow>
          (case read_settings prototype_settings val of
             Inl e \<Rightarrow> Some initialSettings
           | Inr s \<Rightarrow> overlay_saved rest initialSettings prototype_settings)
      | PrototypeObject \<Rightarrow>
          (case read_settings prototype_settings val of
             Inl e \<Rightarrow> Some initialSettings
           | Inr s \<Rightarrow> overlay_saved rest initialSettings s)
      | InheritedSettings inherited \<Rightarrow>
          if \<not> truthy inherited then overlay_saved rest initialSettings prototype_settings
          else
            (case read_settings prototype_settings val of
               Inl e \<Rightarrow> Some initialSettings
             | Inr s \<Rightarrow> None))"

text \<open>
  The function returns the map; \<open>None\<close> is the case the overlay loop leaves outside the
  model. When the module is loaded \<open>Object.prototype\<close> has no \<open>settings\<close>.
\<close>

definition getInitialProviderSettings ::
  "bool \<Rightarrow> ProviderInfo list \<Rightarrow> storage \<Rightarrow> (jsstring \<times> jsval) list option" where
  "getInitialProviderSettings isBrowser PROVIDER_LIST ls =
     (let initialSettings = default_settings PROVIDER_LIST;
          loaded =
            (if isBrowser then
               (case ls PROVIDER_SETTINGS_KEY of
                  None \<Rightarrow> Some initialSettings
                | Some savedSettings \<Rightarrow>
                    if item_truthy savedSettings then
                      (case JSON_parse savedSettings of
                         Inl e \<Rightarrow> Some initialSettings
                       | Inr parsed \<Rightarrow>
                           (case Object_entries parsed of
                              Inl e \<Rightarrow> Some initialSettings
                            | Inr entries \<Rightarrow> overlay_saved entries initialSettings JUndefined))
                    else Some initialSettings)
             else Some initialSettings)
      in map_option (map (\<lambda>kc. (fst kc, JObj (snd kc)))) loaded)"

subsection \<open>\<open>fetchConfiguredProviders\<close>\<close>

text \<open>
  The outcome of the request to \<open>/api/configured-providers\<close>: the fetch rejects, or a
  response arrives with its \<open>ok\<close> flag and a body that is not JSON, or JSON with or
  without a \<open>providers\<close> list.
\<close>

datatype response_body = BadBody | Body "ConfiguredProvider list option"

datatype fetch_result = FetchRejected | Response bool response_body

fun fetchConfiguredProviders :: "fetch_result \<Rightarrow> ConfiguredProvider list" where
  "fetchConfiguredProviders FetchRejected = []"
| "fetchConfiguredProviders (Response ok body) =
     (if \<not> ok then []
      else (case body of
              BadBody \<Rightarrow> []
            | Body None \<Rightarrow> []
            | Body (Some providers) \<Rightarrow> providers))"

subsection \<open>\<open>autoEnableConfiguredProviders\<close>\<close>

text \<open>\<open>autoEnabledProviders ? JSON.parse(autoEnabledProviders) : []\<close>\<close>

definition parse_auto_enabled :: "item option \<Rightarrow> error + jsval" where
  "parse_auto_enabled autoEnabledProviders =
     (case autoEnabledProviders of
        None \<Rightarrow> Inr (JArr [])
      | Some it \<Rightarrow> if item_truthy it then JSON_parse it else Inr (JArr []))"

text \<open>
  The callback of the \<open>forEach\<close> over the report, on the loop's variables
  \<open>(currentSettings, newlyAutoEnabled, hasChanges)\<close>.
\<close>

type_synonym loop_state = "(jsstring \<times> jsval) list \<times> jsstring list \<times> bool"

definition enabled_config :: "jsval \<Rightarrow> jsval \<Rightarrow> jsval" where
  "enabled_config currentProvider settings =
     JObj (AList.update (str ''settings'')
             (JObj (AList.update (str ''enabled'') (JBool True) (own_entries settings)))
             (own_entries currentProvider))"

definition auto_enable_entry ::
  "item option \<Rightarrow> jsval \<Rightarrow> ConfiguredProvider \<Rightarrow> loop_state \<Rightarrow> error + loop_state" where
  "auto_enable_entry savedSettings previouslyAutoEnabled r st =
     (case st of (currentSettings, newlyAutoEnabled, hasChanges) \<Rightarrow>
        if isConfigured r \<and> configMethod r = environment \<and> name r \<in> set LOCAL_PROVIDERS then
          (case map_of currentSettings (name r) of
             None \<Rightarrow> Inr st
           | Some currentProvider \<Rightarrow>
               if \<not> truthy currentProvider then Inr st
               else
                 let hasUserSettings = (savedSettings \<noteq> None) in
                 (case js_includes previouslyAutoEnabled (name r) of
                    Inl e \<Rightarrow> Inl e
                  | Inr wasAutoEnabled \<Rightarrow>
                      (case member currentProvider (str ''settings'') of
                         Inl e \<Rightarrow> Inl e
                       | Inr settings \<Rightarrow>
                           (case member settings (str ''enabled'') of
                              Inl e \<Rightarrow> Inl e
                            | Inr enabled \<Rightarrow>
                                let shouldAutoEnable =
                                      (\<not> truthy enabled \<and> (\<not> hasUserSettings \<or> wasAutoEnabled))
                                in if shouldAutoEnable then
                                     Inr (AList.update (name r)
                                            (enabled_config currentProvider settings)
                                            currentSettings,
                                          newlyAutoEnabled @ [name r], True)
                                   else Inr st))))
        else Inr st)"

text \<open>The loop: it ends at the end of the report or at the first throw.\<close>

fun auto_enable_loop ::
  "item option \<Rightarrow> jsval \<Rightarrow> ConfiguredProvider list \<Rightarrow> loop_state
     \<Rightarrow> loop_state \<times> error option" where
  "auto_enable_loop savedSettings previouslyAutoEnabled [] st = (st, None)"
| "auto_enable_loop savedSettings previouslyAutoEnabled (r # rs) st =
     (case auto_enable_entry savedSettings previouslyAutoEnabled r st of
        Inl e \<Rightarrow> (st, Some e)
      | Inr st' \<Rightarrow> auto_enable_loop savedSettings previouslyAutoEnabled rs st')"

definition autoEnableConfiguredProviders ::
  "bool \<Rightarrow> fetch_result \<Rightarrow> app_state \<Rightarrow> app_state" where
  "autoEnableConfiguredProviders isBrowser fetched st =
     (if \<not> isBrowser then st
      else
        let configuredProviders = fetchConfiguredProviders fetched;
            currentSettings = providersStore st;
            savedSettings = localStorage st PROVIDER_SETTINGS_KEY;
            autoEnabledProviders = localStorage st AUTO_ENABLED_KEY
        in
        (case parse_auto_enabled autoEnabledProviders of
           Inl e \<Rightarrow> st
         | Inr previouslyAutoEnabled \<Rightarrow>
             (case auto_enable_loop savedSettings previouslyAutoEnabled configuredProviders
                     (currentSettings, [], False) of
                ((currentSettings', newlyAutoEnabled, hasChanges), Some e) \<Rightarrow>
                  st\<lparr>providersStore := currentSettings'\<rparr>
              | ((currentSettings', newlyAutoEnabled, hasChanges), None) \<Rightarrow>
                  if hasChanges then
                    let st1 = st\<lparr>providersStore := currentSettings',
                                 localStorage := (localStorage st)
                                   (PROVIDER_SETTINGS_KEY \<mapsto>
                                      JSON_stringify (JObj currentSettings'))\<rparr>
                    in
                    (case js_iterate previouslyAutoEnabled of
                       Inl e \<Rightarrow> st1
                     | Inr previous \<Rightarrow>
                         let allAutoEnabled =
                               new_Set (previous @ map JStr newlyAutoEnabled)
                         in st1\<lparr>localStorage := (localStorage st1)
                                  (AUTO_ENABLED_KEY \<mapsto> JSON_stringify (JArr allAutoEnabled))\<rparr>)
                  else st\<lparr>providersStore := currentSettings'\<rparr>)))"

subsection \<open>\<open>updateProviderSettings\<close> and \<open>updateAutoEnabledTracking\<close>\<close>

definition updateAutoEnabledTracking ::
  "bool \<Rightarrow> jsstring \<Rightarrow> jsval \<Rightarrow> app_state \<Rightarrow> app_state" where
  "updateAutoEnabledTracking isBrowser providerName isEnabled st =
     (if \<not> isBrowser then st
      else
        (case parse_auto_enabled (localStorage st AUTO_ENABLED_KEY) of
           Inl e \<Rightarrow> st
         | Inr currentAutoEnabled \<Rightarrow>
             if truthy isEnabled then
               (case js_includes currentAutoEnabled providerName of
                  Inl e \<Rightarrow> st
                | Inr yes \<Rightarrow>
                    if yes then st
                    else
                      (case currentAutoEnabled of
                         JArr xs \<Rightarrow>
                           st\<lparr>localStorage := (localStorage st)
                                (AUTO_ENABLED_KEY \<mapsto>
                                   JSON_stringify (JArr (xs @ [JStr providerName])))\<rparr>
                       | _ \<Rightarrow> st))
             else
               (case currentAutoEnabled of
                  JArr xs \<Rightarrow>
                    st\<lparr>localStorage := (localStorage st)
                         (AUTO_ENABLED_KEY \<mapsto>
                            JSON_stringify
                              (JArr (filter (\<lambda>n. n \<noteq> JStr providerName) xs)))\<rparr>
                | _ \<Rightarrow> st)))"

text \<open>
  \<open>updateProviderSettings\<close> has no \<open>try\<close>: what it throws reaches the caller, with
  the state as it is at the throw. Outside the browser there is no \<open>localStorage\<close>, and
  the write after the store update throws.
\<close>

definition updateProviderSettings ::
  "bool \<Rightarrow> jsstring \<Rightarrow> jsval \<Rightarrow> app_state \<Rightarrow> app_state \<times> error option" where
  "updateProviderSettings isBrowser provider settings st =
     (let currentSettings = providersStore st;
          current = (case map_of currentSettings provider of
                       None \<Rightarrow> JUndefined
                     | Some c \<Rightarrow> c)
      in
      (case member current (str ''settings'') of
         Inl e \<Rightarrow> (st, Some e)
       | Inr currentProviderSettings \<Rightarrow>
           let updatedSettings =
                 JObj (assign (own_entries currentProviderSettings) (own_entries settings));
               updatedProvider =
                 JObj (AList.update (str ''settings'') updatedSettings (own_entries current));
               st1 = st\<lparr>providersStore := AList.update provider updatedProvider currentSettings\<rparr>
           in
           if \<not> isBrowser then (st1, Some ReferenceError)
           else
             let allSettings = providersStore st1;
                 st2 = st1\<lparr>localStorage := (localStorage st1)
                            (PROVIDER_SETTINGS_KEY \<mapsto> JSON_stringify (JObj allSettings))\<rparr>
             in
             if provider \<in> set LOCAL_PROVIDERS then
               (case member updatedSettings (str ''enabled'') of
                  Inl e \<Rightarrow> (st2, Some e)
                | Inr enabled \<Rightarrow>
                    if enabled \<noteq> JUndefined
                    then (updateAutoEnabledTracking isBrowser provider enabled st2, None)
                    else (st2, None))
             else (st2, None)))"

section \<open>What the claims speak about\<close>

text \<open>A provider is enabled in a settings map when its \<open>settings.enabled\<close> is truthy.\<close>

definition isEnabled :: "(jsstring \<times> jsval) list \<Rightarrow> jsstring \<Rightarrow> bool" where
  "isEnabled m p =
     (case map_of m p of
        None \<Rightarrow> False
      | Some c \<Rightarrow>
          (case member c (str ''settings'') of
             Inl e \<Rightarrow> False
           | Inr s \<Rightarrow>
               (case member s (str ''enabled'') of
                  Inl e \<Rightarrow> False
                | Inr en \<Rightarrow> truthy en)))"

text \<open>The value of \<open>settings.enabled\<close> of a provider of the map, when it can be read.\<close>

definition enabled_field :: "(jsstring \<times> jsval) list \<Rightarrow> jsstring \<Rightarrow> jsval option" where
  "enabled_field m p =
     (case map_of m p of
        None \<Rightarrow> None
      | Some c \<Rightarrow>
          (case member c (str ''settings'') of
             Inl e \<Rightarrow> None
           | Inr s \<Rightarrow>
               (case member s (str ''enabled'') of
                  Inl e \<Rightarrow> None
                | Inr en \<Rightarrow> Some en)))"

text \<open>
  A settings map of the declared type \<open>Record<string, IProviderConfig>\<close>: every entry
  is an object whose \<open>settings\<close> is an object.
\<close>

definition well_typed_config :: "jsval \<Rightarrow> bool" where
  "well_typed_config c =
     (case c of
        JObj ps \<Rightarrow> (case map_of ps (str ''settings'') of Some (JObj ss) \<Rightarrow> True | _ \<Rightarrow> False)
      | _ \<Rightarrow> False)"

definition well_typed_store :: "(jsstring \<times> jsval) list \<Rightarrow> bool" where
  "well_typed_store m = list_all (\<lambda>kc. well_typed_config (snd kc)) m"

text \<open>
  The persisted auto-enabled history is a serialised list of provider names: the item is
  absent or empty (no history yet), or an array of strings.
\<close>

fun is_JStr :: "jsval \<Rightarrow> bool" where
  "is_JStr (JStr n) = True"
| "is_JStr v = False"

definition history_wellformed :: "storage \<Rightarrow> bool" where
  "history_wellformed ls =
     (case ls AUTO_ENABLED_KEY of
        None \<Rightarrow> True
      | Some EmptyText \<Rightarrow> True
      | Some (Doc (JArr xs)) \<Rightarrow> list_all is_JStr xs
      | _ \<Rightarrow> False)"

definition in_history :: "storage \<Rightarrow> jsstring \<Rightarrow> bool" where
  "in_history ls p =
     (case ls AUTO_ENABLED_KEY of
        Some (Doc (JArr xs)) \<Rightarrow> JStr p \<in> set xs
      | _ \<Rightarrow> False)"

text \<open>The map when nothing is overlaid: the default entry of every provider.\<close>

definition defaults_only :: "ProviderInfo list \<Rightarrow> (jsstring \<times> jsval) list" where
  "defaults_only PROVIDER_LIST =
     map (\<lambda>kc. (fst kc, JObj (snd kc))) (default_settings PROVIDER_LIST)"


text \<open>A report marks a provider configured via environment.\<close>

definition reported_configured :: "ConfiguredProvider list \<Rightarrow> jsstring \<Rightarrow> bool" where
  "reported_configured report p =
     list_ex (\<lambda>r. name r = p \<and> isConfigured r \<and> configMethod r = environment) report"

text \<open>The entry the \<open>catch\<close> branch of the loader returns for a provider.\<close>

definition unconfigured :: "jsstring \<Rightarrow> ConfiguredProvider" where
  "unconfigured n = \<lparr>name = n, isConfigured = False, configMethod = none\<rparr>"

text \<open>
  The policy of the pass: a local provider of the map that is not enabled is eligible when
  nothing is persisted yet or the history \<open>xs\<close> holds its name.
\<close>

definition eligible ::
  "item option \<Rightarrow> jsval list \<Rightarrow> (jsstring \<times> jsval) list \<Rightarrow> jsstring \<Rightarrow> bool" where
  "eligible saved xs M p =
     (p \<in> set LOCAL_PROVIDERS \<and> map_of M p \<noteq> None \<and> \<not> isEnabled M p
      \<and> (saved = None \<or> JStr p \<in> set xs))"

subsection \<open>Example inputs\<close>

text \<open>A registry with the three local providers and their environment keys.\<close>

definition example_manager :: LLMManager where
  "example_manager =
     \<lparr>getProvider = (\<lambda>n.
          if n = str ''OpenAILike'' then
            Some \<lparr>baseUrlKey = Some (str ''OPENAI_LIKE_API_BASE_URL''),
                  apiTokenKey = Some (str ''OPENAI_LIKE_API_KEY'')\<rparr>
          else if n = str ''LMStudio'' then
            Some \<lparr>baseUrlKey = Some (str ''LMSTUDIO_API_BASE_URL''), apiTokenKey = None\<rparr>
          else if n = str ''Ollama'' then
            Some \<lparr>baseUrlKey = Some (str ''OLLAMA_API_BASE_URL''), apiTokenKey = None\<rparr>
          else None),
       env = (\<lambda>k. JUndefined)\<rparr>"

text \<open>Scenario C: the API-token variable holds the placeholder \<open>sk-your_key_here\<close>.\<close>

definition scenario_C_env :: "jsstring \<Rightarrow> jsval" where
  "scenario_C_env k =
     (if k = str ''OPENAI_LIKE_API_KEY'' then JStr (str ''sk-your_key_here'') else JUndefined)"

definition scenario_C_request :: request where
  "scenario_C_request =
     \<lparr>cloudflare_env = None, process_env = Some scenario_C_env,
       getInstance = Inr example_manager\<rparr>"

text \<open>A base URL with a leading blank.\<close>

definition blank_url_env :: "jsstring \<Rightarrow> jsval" where
  "blank_url_env k =
     (if k = str ''OLLAMA_API_BASE_URL'' then JStr (str '' http://localhost:11434'')
      else JUndefined)"

definition blank_url_request :: request where
  "blank_url_request =
     \<lparr>cloudflare_env = None, process_env = Some blank_url_env,
       getInstance = Inr example_manager\<rparr>"

text \<open>A runtime without the global \<open>process\<close>: the first base-URL lookup throws.\<close>

definition no_process_request :: request where
  "no_process_request =
     \<lparr>cloudflare_env = Some (\<lambda>k. JUndefined), process_env = None,
       getInstance = Inr example_manager\<rparr>"

text \<open>Scenario A: four known providers, nothing persisted, Ollama detected.\<close>

definition example_PROVIDER_LIST :: "ProviderInfo list" where
  "example_PROVIDER_LIST =
     [ProviderInfo (str ''OpenAI'') [], ProviderInfo (str ''Ollama'') [],
      ProviderInfo (str ''LMStudio'') [], ProviderInfo (str ''OpenAILike'') []]"

definition empty_storage :: storage where
  "empty_storage = (\<lambda>k. None)"

definition ollama_report :: "ConfiguredProvider list" where
  "ollama_report =
     [unconfigured (str ''OpenAILike''), unconfigured (str ''LMStudio''),
      \<lparr>name = str ''Ollama'', isConfigured = True, configMethod = environment\<rparr>]"

text \<open>A provider entry with the given \<open>enabled\<close> flag.\<close>

definition config_with :: "jsstring \<Rightarrow> bool \<Rightarrow> jsstring \<times> jsval" where
  "config_with n b =
     (n, JObj [(str ''name'', JStr n), (str ''settings'', JObj [(str ''enabled'', JBool b)])])"

text \<open>The map built from the four providers when nothing is persisted.\<close>

definition scenario_A_store :: "(jsstring \<times> jsval) list" where
  "scenario_A_store =
     [config_with (str ''OpenAI'') True, config_with (str ''Ollama'') False,
      config_with (str ''LMStudio'') False, config_with (str ''OpenAILike'') False]"

definition scenario_A_state :: app_state where
  "scenario_A_state = \<lparr>providersStore = scenario_A_store, localStorage = empty_storage\<rparr>"

text \<open>
  Scenario B: the snapshot says Ollama is disabled, the history is empty. Also a state
  where Ollama was auto-enabled before and is disabled in the map.
\<close>

definition scenario_B_store :: "(jsstring \<times> jsval) list" where
  "scenario_B_store =
     [config_with (str ''OpenAI'') True, config_with (str ''Ollama'') False,
      config_with (str ''LMStudio'') False, config_with (str ''OpenAILike'') False]"

definition scenario_B_state :: app_state where
  "scenario_B_state =
     \<lparr>providersStore = scenario_B_store,
       localStorage = empty_storage
         (PROVIDER_SETTINGS_KEY \<mapsto> Doc (JObj scenario_B_store),
          AUTO_ENABLED_KEY \<mapsto> Doc (JArr []))\<rparr>"

definition previously_auto_state :: app_state where
  "previously_auto_state =
     \<lparr>providersStore = scenario_B_store,
       localStorage = empty_storage
         (PROVIDER_SETTINGS_KEY \<mapsto> Doc (JObj scenario_B_store),
          AUTO_ENABLED_KEY \<mapsto> Doc (JArr [JStr (str ''Ollama'')]))\<rparr>"

text \<open>
  A snapshot written before the history existed: Ollama is enabled, and no history item is
  stored. The update changes only the base URL.
\<close>

definition enabled_store :: "(jsstring \<times> jsval) list" where
  "enabled_store = [config_with (str ''OpenAI'') True, config_with (str ''Ollama'') True]"

definition enabled_state :: app_state where
  "enabled_state =
     \<lparr>providersStore = enabled_store,
       localStorage = empty_storage(PROVIDER_SETTINGS_KEY \<mapsto> Doc (JObj enabled_store))\<rparr>"

definition baseUrl_update :: jsval where
  "baseUrl_update = JObj [(str ''baseUrl'', JStr (str ''http://localhost:11434''))]"


text \<open>The answers of the detection endpoint used below.\<close>

definition ollama_detected :: fetch_result where
  "ollama_detected = Response True (Body (Some ollama_report))"

definition nothing_detected :: fetch_result where
  "nothing_detected =
     Response True
       (Body (Some [unconfigured (str ''OpenAILike''), unconfigured (str ''LMStudio''),
                    unconfigured (str ''Ollama'')]))"

text \<open>Scenario D: the user enables LMStudio.\<close>

definition enable_update :: "(jsstring \<times> jsval) list" where
  "enable_update = [(str ''enabled'', JBool True)]"

text \<open>
  The user disables Ollama after the first run of Scenario A has auto-enabled it.
\<close>

definition disable_update :: "(jsstring \<times> jsval) list" where
  "disable_update = [(str ''enabled'', JBool False)]"

definition user_disabled_state :: app_state where
  "user_disabled_state =
     fst (updateProviderSettings True (str ''Ollama'') (JObj disable_update)
            (autoEnableConfiguredProviders True ollama_detected scenario_A_state))"








text \<open>A registry that cannot be built, and a base URL left at its placeholder.\<close>

definition registry_down_request :: request where
  "registry_down_request =
     \<lparr>cloudflare_env = None, process_env = Some (\<lambda>k. JUndefined),
       getInstance = Inl OtherError\<rparr>"

definition placeholder_url_env :: "jsstring \<Rightarrow> jsval" where
  "placeholder_url_env k =
     (if k = str ''OPENAI_LIKE_API_BASE_URL'' then JStr (str ''your_openai_like_base_url_here'')
      else JUndefined)"

definition placeholder_url_request :: request where
  "placeholder_url_request =
     \<lparr>cloudflare_env = None, process_env = Some placeholder_url_env,
       getInstance = Inr example_manager\<rparr>"

section \<open>Properties of the detector\<close>

lemma detect_provider_name: "detect_provider req m n = Inr r \<Longrightarrow> name r = n"
  by (auto simp: detect_provider_def split: option.splits sum.splits)

lemma detect_all_names: "detect_all req m ns = Inr rs \<Longrightarrow> map name rs = ns"
  by (induction ns arbitrary: rs) (auto split: sum.splits dest: detect_provider_name)

lemma js_or_chain_truthy:
  "truthy a \<Longrightarrow> js_or (js_or a b) c = a"
  by (simp add: js_or_def)

lemma js_or_chain_falsy:
  "\<not> truthy a \<Longrightarrow> js_or (js_or a b) c = js_or b c"
  by (simp add: js_or_def)

lemma check_baseUrl_probed:
  "baseUrlKey config = Some k \<Longrightarrow> process_env req = Some penv \<Longrightarrow>
   check_baseUrl req m config =
     Inr (k \<noteq> [] \<and> isValidEnvValue (js_or (js_or (cloudflare_lookup req k) (penv k)) (env m k)))"
  by (simp add: check_baseUrl_def)

lemma check_apiToken_probed:
  "apiTokenKey config = Some k \<Longrightarrow> process_env req = Some penv \<Longrightarrow>
   check_apiToken req m config False =
     Inr (k \<noteq> [] \<and> isValidApiToken (js_or (js_or (cloudflare_lookup req k) (penv k)) (env m k)))"
  by (cases "truthy (cloudflare_lookup req k)")
     (simp_all add: check_apiToken_def js_or_chain_truthy js_or_chain_falsy)

text \<open>
  Claim C5 (placeholder rejection). An environment value that contains \<open>your_\<close> or
  \<open>_here\<close>, or that does not start with \<open>http\<close>, fails the base-URL validation, and
  the base-URL block that probed it leaves the provider unconfigured. A value that
  contains one of the placeholders or has at most 10 code units fails the API-token
  validation, and the API-token block that probed it leaves the provider unconfigured.
  With \<open>sk-your_key_here\<close> as its token the provider of Scenario C is reported
  unconfigured.
\<close>

theorem placeholder_rejection:
  "(String_includes s (str ''your_'') \<or> String_includes s (str ''_here'')
      \<or> \<not> String_startsWith s (str ''http'') \<longrightarrow>
      \<not> isValidEnvValue (JStr s) \<and>
      (baseUrlKey config = Some k \<and> process_env req = Some penv \<and>
       js_or (js_or (cloudflare_lookup req k) (penv k)) (env m k) = JStr s \<longrightarrow>
         check_baseUrl req m config = Inr False))
   \<and> (String_includes s (str ''your_'') \<or> String_includes s (str ''_here'')
      \<or> length s \<le> 10 \<longrightarrow>
      \<not> isValidApiToken (JStr s) \<and>
      (apiTokenKey config = Some k \<and> process_env req = Some penv \<and>
       js_or (js_or (cloudflare_lookup req k) (penv k)) (env m k) = JStr s \<longrightarrow>
         check_apiToken req m config False = Inr False))
   \<and> detect_provider scenario_C_request example_manager (str ''OpenAILike'')
       = Inr (unconfigured (str ''OpenAILike''))"
proof (intro conjI impI)
  assume bad: "String_includes s (str ''your_'') \<or> String_includes s (str ''_here'')
      \<or> \<not> String_startsWith s (str ''http'')"
  then show inv: "\<not> isValidEnvValue (JStr s)"
    by (auto simp: isValidEnvValue_def)
  assume "baseUrlKey config = Some k \<and> process_env req = Some penv \<and>
       js_or (js_or (cloudflare_lookup req k) (penv k)) (env m k) = JStr s"
  with inv show "check_baseUrl req m config = Inr False"
    by (simp add: check_baseUrl_probed)
next
  assume bad: "String_includes s (str ''your_'') \<or> String_includes s (str ''_here'')
      \<or> length s \<le> 10"
  then show inv: "\<not> isValidApiToken (JStr s)"
    by (auto simp: isValidApiToken_def)
  assume "apiTokenKey config = Some k \<and> process_env req = Some penv \<and>
       js_or (js_or (cloudflare_lookup req k) (penv k)) (env m k) = JStr s"
  with inv show "check_apiToken req m config False = Inr False"
    by (simp add: check_apiToken_probed)
next
  show "detect_provider scenario_C_request example_manager (str ''OpenAILike'')
       = Inr (unconfigured (str ''OpenAILike''))"
    by (simp add: detect_provider_def example_manager_def scenario_C_request_def
        scenario_C_env_def check_baseUrl_def check_apiToken_def cloudflare_lookup_def
        js_or_def isValidEnvValue_def isValidApiToken_def unconfigured_def str_def)
qed

theorem placeholder_rejection_witness:
  "String_includes (str ''sk-your_key_here'') (str ''your_'')
   \<and> \<not> isValidApiToken (JStr (str ''sk-your_key_here''))
   \<and> check_apiToken scenario_C_request example_manager
        \<lparr>baseUrlKey = None, apiTokenKey = Some (str ''OPENAI_LIKE_API_KEY'')\<rparr> False = Inr False
   \<and> String_includes (str ''your_openai_like_base_url_here'') (str ''_here'')
   \<and> \<not> isValidEnvValue (JStr (str ''your_openai_like_base_url_here''))
   \<and> check_baseUrl placeholder_url_request example_manager
        \<lparr>baseUrlKey = Some (str ''OPENAI_LIKE_API_BASE_URL''), apiTokenKey = None\<rparr> = Inr False"
proof -
  have inc: "String_includes (str ''sk-your_key_here'') (str ''your_'')"
    by (simp add: str_def)
  have probe: "apiTokenKey \<lparr>baseUrlKey = None, apiTokenKey = Some (str ''OPENAI_LIKE_API_KEY'')\<rparr>
        = Some (str ''OPENAI_LIKE_API_KEY'')
      \<and> process_env scenario_C_request = Some scenario_C_env
      \<and> js_or (js_or (cloudflare_lookup scenario_C_request (str ''OPENAI_LIKE_API_KEY''))
                 (scenario_C_env (str ''OPENAI_LIKE_API_KEY'')))
              (env example_manager (str ''OPENAI_LIKE_API_KEY''))
          = JStr (str ''sk-your_key_here'')"
    by (simp add: scenario_C_request_def scenario_C_env_def cloudflare_lookup_def js_or_def
        example_manager_def str_def)
  have inc': "String_includes (str ''your_openai_like_base_url_here'') (str ''_here'')"
    by (simp add: str_def)
  have probe': "baseUrlKey \<lparr>baseUrlKey = Some (str ''OPENAI_LIKE_API_BASE_URL''), apiTokenKey = None\<rparr>
        = Some (str ''OPENAI_LIKE_API_BASE_URL'')
      \<and> process_env placeholder_url_request = Some placeholder_url_env
      \<and> js_or (js_or (cloudflare_lookup placeholder_url_request (str ''OPENAI_LIKE_API_BASE_URL''))
                 (placeholder_url_env (str ''OPENAI_LIKE_API_BASE_URL'')))
              (env example_manager (str ''OPENAI_LIKE_API_BASE_URL''))
          = JStr (str ''your_openai_like_base_url_here'')"
    by (simp add: placeholder_url_request_def placeholder_url_env_def cloudflare_lookup_def
        js_or_def example_manager_def str_def)
  have token: "\<not> isValidApiToken (JStr (str ''sk-your_key_here''))
     \<and> check_apiToken scenario_C_request example_manager
        \<lparr>baseUrlKey = None, apiTokenKey = Some (str ''OPENAI_LIKE_API_KEY'')\<rparr> False = Inr False"
    using inc probe
      placeholder_rejection [of "str ''sk-your_key_here''"
        "\<lparr>baseUrlKey = None, apiTokenKey = Some (str ''OPENAI_LIKE_API_KEY'')\<rparr>"
        "str ''OPENAI_LIKE_API_KEY''" scenario_C_request scenario_C_env example_manager]
    by blast
  have url: "\<not> isValidEnvValue (JStr (str ''your_openai_like_base_url_here''))
     \<and> check_baseUrl placeholder_url_request example_manager
        \<lparr>baseUrlKey = Some (str ''OPENAI_LIKE_API_BASE_URL''), apiTokenKey = None\<rparr> = Inr False"
    using inc' probe'
      placeholder_rejection [of "str ''your_openai_like_base_url_here''"
        "\<lparr>baseUrlKey = Some (str ''OPENAI_LIKE_API_BASE_URL''), apiTokenKey = None\<rparr>"
        "str ''OPENAI_LIKE_API_BASE_URL''" placeholder_url_request placeholder_url_env
        example_manager]
    by blast
  from inc inc' token url show ?thesis by blast
qed

text \<open>
  Claim C6 (degradation on failure). The loader always answers with one entry per local
  provider, in the order of \<open>LOCAL_PROVIDERS\<close>; when the detection pass throws, for
  instance because the registry cannot be obtained, every entry is
  \<open>isConfigured = false, configMethod = none\<close>.
\<close>

theorem loader_degrades_on_exception:
  "map name (loader req) = LOCAL_PROVIDERS
   \<and> (loader_try req = Inl e \<longrightarrow> loader req = map unconfigured LOCAL_PROVIDERS)
   \<and> (getInstance req = Inl e \<longrightarrow> loader_try req = Inl e)"
proof (intro conjI impI)
  show "map name (loader req) = LOCAL_PROVIDERS"
    by (auto simp: loader_def loader_try_def comp_def split: sum.splits dest: detect_all_names)
  show "loader req = map unconfigured LOCAL_PROVIDERS" if "loader_try req = Inl e"
    using that by (simp add: loader_def unconfigured_def)
  show "loader_try req = Inl e" if "getInstance req = Inl e"
    using that by (simp add: loader_try_def)
qed

theorem loader_degrades_on_exception_witness:
  "loader_try no_process_request = Inl ReferenceError
   \<and> loader no_process_request = map unconfigured LOCAL_PROVIDERS
   \<and> getInstance registry_down_request = Inl OtherError
   \<and> loader registry_down_request = map unconfigured LOCAL_PROVIDERS"
proof -
  have thrown: "loader_try no_process_request = Inl ReferenceError"
    by (simp add: no_process_request_def loader_try_def LOCAL_PROVIDERS_def
        detect_provider_def example_manager_def check_baseUrl_def str_def)
  have down: "getInstance registry_down_request = Inl OtherError"
    by (simp add: registry_down_request_def)
  from thrown down
    loader_degrades_on_exception [of no_process_request ReferenceError]
    loader_degrades_on_exception [of registry_down_request OtherError]
  show ?thesis by blast
qed

text \<open>
  Claim C10 (leading whitespace). A base-URL value whose first code unit is whitespace
  does not start with \<open>http\<close>, so it fails the validation and the base-URL block that
  probed it leaves the provider unconfigured, although the same value trimmed would pass:
  only the emptiness test looks at the trimmed value.
\<close>

theorem untrimmed_base_url_rejected:
  "(s \<noteq> [] \<and> is_whitespace (hd s) \<longrightarrow>
      \<not> String_startsWith s (str ''http'') \<and> \<not> isValidEnvValue (JStr s) \<and>
      (baseUrlKey config = Some k \<and> process_env req = Some penv \<and>
       js_or (js_or (cloudflare_lookup req k) (penv k)) (env m k) = JStr s \<longrightarrow>
         check_baseUrl req m config = Inr False))
   \<and> isValidEnvValue (JStr (String_trim (str '' http://localhost:11434'')))
   \<and> detect_provider blank_url_request example_manager (str ''Ollama'')
       = Inr (unconfigured (str ''Ollama''))"
proof (intro conjI impI)
  assume ws: "s \<noteq> [] \<and> is_whitespace (hd s)"
  then show nst: "\<not> String_startsWith s (str ''http'')"
    by (cases s) (auto simp: str_def is_whitespace_def)
  then show inv: "\<not> isValidEnvValue (JStr s)"
    by (simp add: isValidEnvValue_def)
  assume "baseUrlKey config = Some k \<and> process_env req = Some penv \<and>
       js_or (js_or (cloudflare_lookup req k) (penv k)) (env m k) = JStr s"
  with inv show "check_baseUrl req m config = Inr False"
    by (simp add: check_baseUrl_probed)
next
  show "isValidEnvValue (JStr (String_trim (str '' http://localhost:11434'')))"
    by (simp add: isValidEnvValue_def String_trim_def is_whitespace_def str_def)
  show "detect_provider blank_url_request example_manager (str ''Ollama'')
       = Inr (unconfigured (str ''Ollama''))"
    by (simp add: detect_provider_def example_manager_def blank_url_request_def
        blank_url_env_def check_baseUrl_def check_apiToken_def cloudflare_lookup_def
        js_or_def isValidEnvValue_def unconfigured_def str_def)
qed

theorem untrimmed_base_url_rejected_witness:
  "str '' http://localhost:11434'' \<noteq> []
   \<and> is_whitespace (hd (str '' http://localhost:11434''))
   \<and> \<not> isValidEnvValue (JStr (str '' http://localhost:11434''))
   \<and> check_baseUrl blank_url_request example_manager
        \<lparr>baseUrlKey = Some (str ''OLLAMA_API_BASE_URL''), apiTokenKey = None\<rparr> = Inr False"
proof -
  have ws: "str '' http://localhost:11434'' \<noteq> []
     \<and> is_whitespace (hd (str '' http://localhost:11434''))"
    by (simp add: str_def is_whitespace_def)
  have probe: "baseUrlKey \<lparr>baseUrlKey = Some (str ''OLLAMA_API_BASE_URL''), apiTokenKey = None\<rparr>
        = Some (str ''OLLAMA_API_BASE_URL'')
      \<and> process_env blank_url_request = Some blank_url_env
      \<and> js_or (js_or (cloudflare_lookup blank_url_request (str ''OLLAMA_API_BASE_URL''))
                 (blank_url_env (str ''OLLAMA_API_BASE_URL'')))
              (env example_manager (str ''OLLAMA_API_BASE_URL''))
          = JStr (str '' http://localhost:11434'')"
    by (simp add: blank_url_request_def blank_url_env_def cloudflare_lookup_def js_or_def
        example_manager_def str_def)
  from ws probe
    untrimmed_base_url_rejected [of "str '' http://localhost:11434''"
      "\<lparr>baseUrlKey = Some (str ''OLLAMA_API_BASE_URL''), apiTokenKey = None\<rparr>"
      "str ''OLLAMA_API_BASE_URL''" blank_url_request blank_url_env example_manager]
  show ?thesis by blast
qed

section \<open>Properties of the auto-enable pass\<close>

lemma isEnabled_cong: "map_of M p = map_of M' p \<Longrightarrow> isEnabled M p = isEnabled M' p"
  by (simp add: isEnabled_def)

lemma enabled_field_cong:
  "map_of M p = map_of M' p \<Longrightarrow> enabled_field M p = enabled_field M' p"
  by (simp add: enabled_field_def)

lemma isEnabled_field: "isEnabled M p = (\<exists>en. enabled_field M p = Some en \<and> truthy en)"
  by (auto simp: isEnabled_def enabled_field_def split: option.splits sum.splits)

lemma member_enabled_config:
  "member (enabled_config c s) (str ''settings'')
     = Inr (JObj (AList.update (str ''enabled'') (JBool True) (own_entries s)))"
  by (simp add: enabled_config_def member_def update_conv')

lemma enabled_field_flipped:
  "enabled_field (AList.update p (enabled_config c s) M) p = Some (JBool True)"
  by (simp add: enabled_field_def update_conv' member_enabled_config)
     (simp add: member_def update_conv')

lemma map_of_update_other: "q \<noteq> p \<Longrightarrow> map_of (AList.update p v M) q = map_of M q"
  by (simp add: update_conv')

text \<open>What one callback does: nothing, or the flip of a provider that was not enabled.\<close>

lemma auto_enable_entry_cases:
  assumes "auto_enable_entry saved prev r (M, nw, h) = Inr (M', nw', h')"
  shows "(M' = M \<and> nw' = nw \<and> h' = h)
       \<or> (\<exists>c s en. isConfigured r \<and> configMethod r = environment
             \<and> name r \<in> set LOCAL_PROVIDERS
             \<and> map_of M (name r) = Some c \<and> truthy c
             \<and> member c (str ''settings'') = Inr s \<and> member s (str ''enabled'') = Inr en
             \<and> \<not> truthy en
             \<and> (saved = None \<or> js_includes prev (name r) = Inr True)
             \<and> M' = AList.update (name r) (enabled_config c s) M
             \<and> nw' = nw @ [name r] \<and> h')"
  using assms
  by (auto simp: auto_enable_entry_def Let_def split: if_splits option.splits sum.splits)

lemma auto_enable_entry_flip_not_enabled:
  assumes "map_of M p = Some c" "member c (str ''settings'') = Inr s"
    "member s (str ''enabled'') = Inr en" "\<not> truthy en"
  shows "\<not> isEnabled M p"
  using assms by (simp add: isEnabled_def)

lemma auto_enable_entry_keeps_enabled:
  assumes "auto_enable_entry saved prev r (M, nw, h) = Inr (M', nw', h')" "isEnabled M p"
  shows "map_of M' p = map_of M p"
proof (cases "M' = M")
  case True
  then show ?thesis by simp
next
  case False
  from auto_enable_entry_cases [OF assms(1)] False
  have "\<exists>c s en. map_of M (name r) = Some c \<and> member c (str ''settings'') = Inr s
      \<and> member s (str ''enabled'') = Inr en \<and> \<not> truthy en
      \<and> M' = AList.update (name r) (enabled_config c s) M"
    by auto
  then obtain c s en where c: "map_of M (name r) = Some c"
      "member c (str ''settings'') = Inr s"
      "member s (str ''enabled'') = Inr en" "\<not> truthy en"
    and M': "M' = AList.update (name r) (enabled_config c s) M"
    by auto
  from c have "\<not> isEnabled M (name r)" by (rule auto_enable_entry_flip_not_enabled)
  with assms(2) have "p \<noteq> name r" by auto
  with M' show ?thesis by (simp add: update_conv')
qed

lemma auto_enable_loop_keeps_enabled:
  assumes "auto_enable_loop saved prev rs (M, nw, h) = ((M', nw', h'), err)" "isEnabled M p"
  shows "map_of M' p = map_of M p"
  using assms
proof (induction rs arbitrary: M nw h)
  case Nil
  then show ?case by simp
next
  case (Cons r rs)
  show ?case
  proof (cases "auto_enable_entry saved prev r (M, nw, h)")
    case (Inl e)
    with Cons.prems show ?thesis by simp
  next
    case (Inr st1)
    obtain M1 nw1 h1 where st1: "st1 = (M1, nw1, h1)" by (cases st1) auto
    have step: "auto_enable_entry saved prev r (M, nw, h) = Inr (M1, nw1, h1)"
      using Inr st1 by simp
    have same: "map_of M1 p = map_of M p"
      using step Cons.prems(2) by (rule auto_enable_entry_keeps_enabled)
    have en1: "isEnabled M1 p"
      using Cons.prems(2) isEnabled_cong [OF same] by simp
    have rest: "auto_enable_loop saved prev rs (M1, nw1, h1) = ((M', nw', h'), err)"
      using Cons.prems(1) step by simp
    have "map_of M' p = map_of M1 p"
      using rest en1 by (rule Cons.IH)
    with same show ?thesis by simp
  qed
qed

lemma auto_enable_entry_only_enables:
  assumes "auto_enable_entry saved prev r (M, nw, h) = Inr (M', nw', h')"
  shows "map_of M' p = map_of M p \<or> enabled_field M' p = Some (JBool True)"
  using auto_enable_entry_cases [OF assms]
  by (cases "p = name r") (auto simp: enabled_field_flipped update_conv')

lemma auto_enable_loop_only_enables:
  assumes "auto_enable_loop saved prev rs (M, nw, h) = ((M', nw', h'), err)"
  shows "map_of M' p = map_of M p \<or> enabled_field M' p = Some (JBool True)"
  using assms
proof (induction rs arbitrary: M nw h)
  case Nil
  then show ?case by simp
next
  case (Cons r rs)
  show ?case
  proof (cases "auto_enable_entry saved prev r (M, nw, h)")
    case (Inl e)
    with Cons.prems show ?thesis by simp
  next
    case (Inr st1)
    obtain M1 nw1 h1 where st1: "st1 = (M1, nw1, h1)" by (cases st1) auto
    from Inr st1 have step: "map_of M1 p = map_of M p \<or> enabled_field M1 p = Some (JBool True)"
      by (auto dest: auto_enable_entry_only_enables)
    from Cons.prems Inr st1
    have "auto_enable_loop saved prev rs (M1, nw1, h1) = ((M', nw', h'), err)" by simp
    then have rest: "map_of M' p = map_of M1 p \<or> enabled_field M' p = Some (JBool True)"
      by (rule Cons.IH)
    show ?thesis
    proof (cases "map_of M' p = map_of M1 p")
      case True
      with step enabled_field_cong [OF True] show ?thesis by auto
    next
      case False
      with rest show ?thesis by simp
    qed
  qed
qed

text \<open>The store after the pass is the map the loop leaves.\<close>

lemma autoEnable_not_browser: "autoEnableConfiguredProviders False fetched st = st"
  by (simp add: autoEnableConfiguredProviders_def)

lemma autoEnable_parse_error:
  "parse_auto_enabled (localStorage st AUTO_ENABLED_KEY) = Inl e \<Longrightarrow>
   autoEnableConfiguredProviders b fetched st = st"
  by (simp add: autoEnableConfiguredProviders_def)

lemma autoEnable_store:
  "parse_auto_enabled (localStorage st AUTO_ENABLED_KEY) = Inr prev \<Longrightarrow>
   providersStore (autoEnableConfiguredProviders True fetched st)
     = fst (fst (auto_enable_loop (localStorage st PROVIDER_SETTINGS_KEY) prev
                   (fetchConfiguredProviders fetched) (providersStore st, [], False)))"
  by (simp add: autoEnableConfiguredProviders_def Let_def
      split: prod.splits option.splits sum.splits)

lemma loop_result:
  "\<exists>M' nw' h' err. auto_enable_loop saved prev rs st0 = ((M', nw', h'), err)"
  by (metis prod.exhaust)

text \<open>
  Claim C2 (no downgrade). Whatever the report, the settings map and the storage hold, the
  pass leaves the entry of every enabled provider as it is, so the provider stays enabled;
  and an entry that the pass does change has \<open>settings.enabled = true\<close> afterwards.
\<close>

theorem autoEnable_never_disables:
  "(isEnabled (providersStore st) p \<longrightarrow>
      map_of (providersStore (autoEnableConfiguredProviders b fetched st)) p
        = map_of (providersStore st) p
      \<and> isEnabled (providersStore (autoEnableConfiguredProviders b fetched st)) p)
   \<and> (map_of (providersStore (autoEnableConfiguredProviders b fetched st)) p
        = map_of (providersStore st) p
      \<or> enabled_field (providersStore (autoEnableConfiguredProviders b fetched st)) p
        = Some (JBool True))"
proof (cases "b")
  case False
  then show ?thesis by (simp add: autoEnable_not_browser)
next
  case True
  show ?thesis
  proof (cases "parse_auto_enabled (localStorage st AUTO_ENABLED_KEY)")
    case (Inl e)
    then show ?thesis by (simp add: autoEnable_parse_error)
  next
    case (Inr prev)
    obtain M' nw' h' err where loop:
      "auto_enable_loop (localStorage st PROVIDER_SETTINGS_KEY) prev
         (fetchConfiguredProviders fetched) (providersStore st, [], False)
       = ((M', nw', h'), err)"
      using loop_result by blast
    with Inr True have store: "providersStore (autoEnableConfiguredProviders b fetched st) = M'"
      by (simp add: autoEnable_store)
    have keep: "map_of M' p = map_of (providersStore st) p" if "isEnabled (providersStore st) p"
      using loop that by (rule auto_enable_loop_keeps_enabled)
    have only: "map_of M' p = map_of (providersStore st) p
        \<or> enabled_field M' p = Some (JBool True)"
      using loop by (rule auto_enable_loop_only_enables)
    show ?thesis
    proof (cases "isEnabled (providersStore st) p")
      case True
      from keep [OF True] isEnabled_cong [OF keep [OF True]] True show ?thesis
        unfolding store by simp
    next
      case False
      with only show ?thesis unfolding store by simp
    qed
  qed
qed


section \<open>No flip, no change; sticky disable\<close>

lemma isEnabled_flipped: "isEnabled (AList.update p (enabled_config c s) M) p"
  by (simp add: isEnabled_field enabled_field_flipped)

lemma auto_enable_loop_unchanged_or_flip:
  assumes "auto_enable_loop saved prev rs (M, nw, h) = ((M', nw', h'), err)"
  shows "(M' = M \<and> nw' = nw \<and> h' = h) \<or> (\<exists>p. \<not> isEnabled M p \<and> isEnabled M' p)"
  using assms
proof (induction rs arbitrary: M nw h)
  case Nil
  then show ?case by simp
next
  case (Cons r rs)
  show ?case
  proof (cases "auto_enable_entry saved prev r (M, nw, h)")
    case (Inl e)
    with Cons.prems show ?thesis by simp
  next
    case (Inr st1)
    obtain M1 nw1 h1 where st1: "st1 = (M1, nw1, h1)" by (cases st1) auto
    have step: "auto_enable_entry saved prev r (M, nw, h) = Inr (M1, nw1, h1)"
      using Inr st1 by simp
    have rest: "auto_enable_loop saved prev rs (M1, nw1, h1) = ((M', nw', h'), err)"
      using Cons.prems step by simp
    show ?thesis
    proof (cases "M1 = M \<and> nw1 = nw \<and> h1 = h")
      case True
      with rest Cons.IH [of M nw h] show ?thesis by simp
    next
      case False
      from auto_enable_entry_cases [OF step] False
      have "\<exists>c s en. map_of M (name r) = Some c \<and> member c (str ''settings'') = Inr s
          \<and> member s (str ''enabled'') = Inr en \<and> \<not> truthy en
          \<and> M1 = AList.update (name r) (enabled_config c s) M"
        by auto
      then obtain c s en where c: "map_of M (name r) = Some c"
          "member c (str ''settings'') = Inr s"
          "member s (str ''enabled'') = Inr en" "\<not> truthy en"
        and M1: "M1 = AList.update (name r) (enabled_config c s) M"
        by auto
      from c have before: "\<not> isEnabled M (name r)"
        by (rule auto_enable_entry_flip_not_enabled)
      from M1 have en1: "isEnabled M1 (name r)" by (simp add: isEnabled_flipped)
      have "map_of M' (name r) = map_of M1 (name r)"
        using rest en1 by (rule auto_enable_loop_keeps_enabled)
      from isEnabled_cong [OF this] en1 have "isEnabled M' (name r)" by simp
      with before show ?thesis by blast
    qed
  qed
qed

lemma auto_enable_entry_not_configured:
  "\<not> (isConfigured r \<and> configMethod r = environment) \<Longrightarrow>
   auto_enable_entry saved prev r st0 = Inr st0"
  by (cases st0) (auto simp: auto_enable_entry_def)

lemma auto_enable_loop_none_configured:
  "\<forall>r \<in> set rs. \<not> (isConfigured r \<and> configMethod r = environment) \<Longrightarrow>
   auto_enable_loop saved prev rs st0 = (st0, None)"
  by (induction rs) (simp_all add: auto_enable_entry_not_configured)

lemma autoEnable_unchanged:
  assumes "parse_auto_enabled (localStorage st AUTO_ENABLED_KEY) = Inr prev"
    "auto_enable_loop (localStorage st PROVIDER_SETTINGS_KEY) prev
       (fetchConfiguredProviders fetched) (providersStore st, [], False)
     = ((providersStore st, [], False), err)"
  shows "autoEnableConfiguredProviders b fetched st = st"
  using assms by (simp add: autoEnableConfiguredProviders_def Let_def split: option.splits)

text \<open>
  Claim C9 (no flip, no change). When no provider is enabled after the pass that was not
  enabled before, the state after the pass is the state before it: the map in memory, the
  persisted snapshot and the persisted history, with no write to storage. This is the case
  in particular when the report is empty or marks every provider unconfigured.
\<close>

theorem autoEnable_no_flip_no_change:
  "((\<forall>p. isEnabled (providersStore (autoEnableConfiguredProviders b fetched st)) p
          = isEnabled (providersStore st) p) \<longrightarrow>
      autoEnableConfiguredProviders b fetched st = st)
   \<and> ((\<forall>r \<in> set (fetchConfiguredProviders fetched). \<not> isConfigured r) \<longrightarrow>
      autoEnableConfiguredProviders b fetched st = st)"
proof (cases "b")
  case False
  then show ?thesis by (simp add: autoEnable_not_browser)
next
  case True
  show ?thesis
  proof (cases "parse_auto_enabled (localStorage st AUTO_ENABLED_KEY)")
    case (Inl e)
    then show ?thesis by (simp add: autoEnable_parse_error)
  next
    case (Inr prev)
    obtain M' nw' h' err where loop:
      "auto_enable_loop (localStorage st PROVIDER_SETTINGS_KEY) prev
         (fetchConfiguredProviders fetched) (providersStore st, [], False)
       = ((M', nw', h'), err)"
      using loop_result by blast
    with Inr True have store: "providersStore (autoEnableConfiguredProviders b fetched st) = M'"
      by (simp add: autoEnable_store)
    have first: "autoEnableConfiguredProviders b fetched st = st"
      if same: "\<forall>p. isEnabled M' p = isEnabled (providersStore st) p"
    proof -
      from auto_enable_loop_unchanged_or_flip [OF loop] same
      have "M' = providersStore st \<and> nw' = [] \<and> h' = False" by auto
      with loop Inr show ?thesis by (simp add: autoEnable_unchanged)
    qed
    have second: "autoEnableConfiguredProviders b fetched st = st"
      if none: "\<forall>r \<in> set (fetchConfiguredProviders fetched). \<not> isConfigured r"
    proof -
      from none have "auto_enable_loop (localStorage st PROVIDER_SETTINGS_KEY) prev
         (fetchConfiguredProviders fetched) (providersStore st, [], False)
       = ((providersStore st, [], False), None)"
        by (intro auto_enable_loop_none_configured) simp
      with Inr show ?thesis by (rule autoEnable_unchanged)
    qed
    from first second show ?thesis unfolding store by blast
  qed
qed

lemma auto_enable_entry_sticky:
  assumes "auto_enable_entry saved prev r (M, nw, h) = Inr (M', nw', h')"
    "saved \<noteq> None" "js_includes prev p \<noteq> Inr True"
  shows "map_of M' p = map_of M p"
proof (cases "M' = M")
  case True
  then show ?thesis by simp
next
  case False
  from auto_enable_entry_cases [OF assms(1)] False assms(2)
  have "\<exists>c s. js_includes prev (name r) = Inr True
      \<and> M' = AList.update (name r) (enabled_config c s) M"
    by auto
  then obtain c s where inc: "js_includes prev (name r) = Inr True"
    and M': "M' = AList.update (name r) (enabled_config c s) M"
    by auto
  from inc assms(3) have "p \<noteq> name r" by auto
  with M' show ?thesis by (simp add: update_conv')
qed

lemma auto_enable_loop_sticky:
  assumes "auto_enable_loop saved prev rs (M, nw, h) = ((M', nw', h'), err)"
    "saved \<noteq> None" "js_includes prev p \<noteq> Inr True"
  shows "map_of M' p = map_of M p"
  using assms(1)
proof (induction rs arbitrary: M nw h)
  case Nil
  then show ?case by simp
next
  case (Cons r rs)
  show ?case
  proof (cases "auto_enable_entry saved prev r (M, nw, h)")
    case (Inl e)
    with Cons.prems show ?thesis by simp
  next
    case (Inr st1)
    obtain M1 nw1 h1 where st1: "st1 = (M1, nw1, h1)" by (cases st1) auto
    have step: "auto_enable_entry saved prev r (M, nw, h) = Inr (M1, nw1, h1)"
      using Inr st1 by simp
    have same: "map_of M1 p = map_of M p"
      using step assms(2,3) by (rule auto_enable_entry_sticky)
    have rest: "auto_enable_loop saved prev rs (M1, nw1, h1) = ((M', nw', h'), err)"
      using Cons.prems step by simp
    from Cons.IH [OF rest] same show ?thesis by simp
  qed
qed

text \<open>A well-formed history parses to an array of names.\<close>

lemma history_wellformed_parse:
  assumes "history_wellformed ls"
  shows "\<exists>xs. parse_auto_enabled (ls AUTO_ENABLED_KEY) = Inr (JArr xs) \<and> list_all is_JStr xs
           \<and> (\<forall>p. in_history ls p = (JStr p \<in> set xs))"
  using assms
  by (auto simp: history_wellformed_def parse_auto_enabled_def in_history_def
      split: option.splits item.splits jsval.splits)

text \<open>
  Claim C3 (sticky user disable). When a persisted snapshot exists and a provider is
  disabled and absent from the persisted history (a list of names), the pass leaves its
  entry as it is, whatever the report says: the provider stays disabled.
\<close>

theorem autoEnable_sticky_disable:
  assumes "localStorage st PROVIDER_SETTINGS_KEY \<noteq> None"
    and "history_wellformed (localStorage st)"
    and "\<not> in_history (localStorage st) p"
    and "\<not> isEnabled (providersStore st) p"
  shows "map_of (providersStore (autoEnableConfiguredProviders b fetched st)) p
           = map_of (providersStore st) p
         \<and> \<not> isEnabled (providersStore (autoEnableConfiguredProviders b fetched st)) p"
proof -
  have same: "map_of (providersStore (autoEnableConfiguredProviders b fetched st)) p
           = map_of (providersStore st) p"
  proof (cases "b")
    case False
    then show ?thesis by (simp add: autoEnable_not_browser)
  next
    case True
    from history_wellformed_parse [OF assms(2)] assms(3)
    obtain xs where prev: "parse_auto_enabled (localStorage st AUTO_ENABLED_KEY) = Inr (JArr xs)"
      and notin: "JStr p \<notin> set xs"
      by auto
    obtain M' nw' h' err where loop:
      "auto_enable_loop (localStorage st PROVIDER_SETTINGS_KEY) (JArr xs)
         (fetchConfiguredProviders fetched) (providersStore st, [], False)
       = ((M', nw', h'), err)"
      using loop_result by blast
    with prev True have store: "providersStore (autoEnableConfiguredProviders b fetched st) = M'"
      by (simp add: autoEnable_store)
    from notin have "js_includes (JArr xs) p \<noteq> Inr True" by (simp add: js_includes_def)
    with loop assms(1) have "map_of M' p = map_of (providersStore st) p"
      by (rule auto_enable_loop_sticky)
    with store show ?thesis by simp
  qed
  from isEnabled_cong [OF same] assms(4) same show ?thesis by simp
qed


section \<open>The policy on well-typed maps\<close>

lemma well_typed_store_lookup:
  "well_typed_store M \<Longrightarrow> map_of M p = Some c \<Longrightarrow> well_typed_config c"
proof -
  assume wt: "well_typed_store M" and "map_of M p = Some c"
  then have "(p, c) \<in> set M" by (auto dest: map_of_SomeD)
  with wt have "well_typed_config (snd (p, c))"
    unfolding well_typed_store_def list_all_iff by blast
  then show ?thesis by simp
qed

lemma well_typed_store_update:
  "well_typed_store M \<Longrightarrow> well_typed_config v \<Longrightarrow> well_typed_store (AList.update k v M)"
  by (induction M) (auto simp: well_typed_store_def)

lemma well_typed_config_members:
  assumes "well_typed_config c"
  shows "truthy c \<and> (\<exists>ss. member c (str ''settings'') = Inr (JObj ss))"
proof (cases c)
  case (JObj ps)
  with assms obtain s where s: "map_of ps (str ''settings'') = Some s"
    by (auto simp: well_typed_config_def split: option.splits)
  with assms JObj obtain ss where "s = JObj ss"
    by (cases s) (auto simp: well_typed_config_def)
  with s JObj show ?thesis by (simp add: member_def)
qed (use assms in \<open>auto simp: well_typed_config_def\<close>)

lemma member_JObj: "\<exists>en. member (JObj ss) k = Inr en"
  by (simp add: member_def)

lemma well_typed_enabled_config: "well_typed_config (enabled_config c s)"
  by (simp add: well_typed_config_def enabled_config_def update_conv')

lemma auto_enable_entry_well_typed:
  assumes wt: "well_typed_store M"
  shows "\<exists>M' nw' h'. auto_enable_entry saved (JArr xs) r (M, nw, h) = Inr (M', nw', h')
     \<and> well_typed_store M'
     \<and> (if isConfigured r \<and> configMethod r = environment \<and> name r \<in> set LOCAL_PROVIDERS
           \<and> map_of M (name r) \<noteq> None \<and> \<not> isEnabled M (name r)
           \<and> (saved = None \<or> JStr (name r) \<in> set xs)
         then isEnabled M' (name r) \<and> map_of M' (name r) \<noteq> None
              \<and> (\<forall>q. q \<noteq> name r \<longrightarrow> map_of M' q = map_of M q)
              \<and> nw' = nw @ [name r] \<and> h'
         else M' = M \<and> nw' = nw \<and> h' = h)"
proof (cases "isConfigured r \<and> configMethod r = environment \<and> name r \<in> set LOCAL_PROVIDERS")
  case False
  with wt show ?thesis by (auto simp: auto_enable_entry_def)
next
  case qual: True
  show ?thesis
  proof (cases "map_of M (name r)")
    case None
    with qual wt show ?thesis by (simp add: auto_enable_entry_def)
  next
    case (Some c)
    with wt have wc: "well_typed_config c" by (rule well_typed_store_lookup)
    from well_typed_config_members [OF wc]
    obtain ss where tr: "truthy c" and ms: "member c (str ''settings'') = Inr (JObj ss)"
      by auto
    obtain en where me: "member (JObj ss) (str ''enabled'') = Inr en"
      using member_JObj by blast
    have en_iff: "isEnabled M (name r) = truthy en"
      using Some ms me by (simp add: isEnabled_def)
    show ?thesis
    proof (cases "\<not> truthy en \<and> (saved = None \<or> JStr (name r) \<in> set xs)")
      case False
      with qual Some tr ms me en_iff wt show ?thesis
        by (auto simp: auto_enable_entry_def js_includes_def)
    next
      case True
      with qual Some tr ms me
      have step: "auto_enable_entry saved (JArr xs) r (M, nw, h)
          = Inr (AList.update (name r) (enabled_config c (JObj ss)) M, nw @ [name r], True)"
        by (auto simp: auto_enable_entry_def js_includes_def)
      have "well_typed_store (AList.update (name r) (enabled_config c (JObj ss)) M)"
        using wt well_typed_enabled_config by (rule well_typed_store_update)
      with step qual Some True en_iff show ?thesis
        by (auto simp: isEnabled_flipped update_conv')
    qed
  qed
qed

lemma auto_enable_loop_well_typed:
  assumes "well_typed_store M"
  shows "\<exists>M' nw' h'. auto_enable_loop saved (JArr xs) rs (M, nw, h) = ((M', nw', h'), None)
     \<and> well_typed_store M'
     \<and> (\<forall>p. isEnabled M' p = (isEnabled M p \<or> (reported_configured rs p \<and> eligible saved xs M p)))
     \<and> (\<forall>p. (map_of M' p \<noteq> None) = (map_of M p \<noteq> None))
     \<and> set nw' = set nw \<union> {p. reported_configured rs p \<and> eligible saved xs M p}
     \<and> (h' = (h \<or> (\<exists>p. reported_configured rs p \<and> eligible saved xs M p)))"
  using assms
proof (induction rs arbitrary: M nw h)
  case Nil
  then show ?case by (simp add: reported_configured_def)
next
  case (Cons r rs)
  let ?flip = "isConfigured r \<and> configMethod r = environment \<and> eligible saved xs M (name r)"
  from auto_enable_entry_well_typed [OF Cons.prems, of saved xs r nw h]
  obtain M1 nw1 h1 where step: "auto_enable_entry saved (JArr xs) r (M, nw, h) = Inr (M1, nw1, h1)"
    and wt1: "well_typed_store M1"
    and eff: "if ?flip
         then isEnabled M1 (name r) \<and> map_of M1 (name r) \<noteq> None
              \<and> (\<forall>q. q \<noteq> name r \<longrightarrow> map_of M1 q = map_of M q)
              \<and> nw1 = nw @ [name r] \<and> h1
         else M1 = M \<and> nw1 = nw \<and> h1 = h"
    unfolding eligible_def by auto
  from Cons.IH [OF wt1, of nw1 h1]
  obtain M' nw' h' where loop: "auto_enable_loop saved (JArr xs) rs (M1, nw1, h1) = ((M', nw', h'), None)"
    and wt': "well_typed_store M'"
    and en': "\<forall>p. isEnabled M' p = (isEnabled M1 p \<or> (reported_configured rs p \<and> eligible saved xs M1 p))"
    and dom': "\<forall>p. (map_of M' p \<noteq> None) = (map_of M1 p \<noteq> None)"
    and nw': "set nw' = set nw1 \<union> {p. reported_configured rs p \<and> eligible saved xs M1 p}"
    and h': "h' = (h1 \<or> (\<exists>p. reported_configured rs p \<and> eligible saved xs M1 p))"
    by blast
  have rep: "\<And>p. reported_configured (r # rs) p
      = ((name r = p \<and> isConfigured r \<and> configMethod r = environment) \<or> reported_configured rs p)"
    by (simp add: reported_configured_def)
  have el1: "\<And>p. eligible saved xs M1 p = (eligible saved xs M p \<and> \<not> (?flip \<and> p = name r))"
  proof -
    fix p
    show "eligible saved xs M1 p = (eligible saved xs M p \<and> \<not> (?flip \<and> p = name r))"
    proof (cases ?flip)
      case False
      with eff show ?thesis by auto
    next
      case True
      with eff have a: "isEnabled M1 (name r)"
        and b: "\<forall>q. q \<noteq> name r \<longrightarrow> map_of M1 q = map_of M q" by auto
      show ?thesis
      proof (cases "p = name r")
        case True
        with a \<open>?flip\<close> show ?thesis by (simp add: eligible_def)
      next
        case False
        with b have "map_of M1 p = map_of M p" by simp
        with isEnabled_cong [OF this] False show ?thesis by (simp add: eligible_def)
      qed
    qed
  qed
  have en1: "\<And>p. isEnabled M1 p = (isEnabled M p \<or> (?flip \<and> p = name r))"
  proof -
    fix p
    show "isEnabled M1 p = (isEnabled M p \<or> (?flip \<and> p = name r))"
    proof (cases ?flip)
      case False
      with eff show ?thesis by auto
    next
      case True
      with eff have a: "isEnabled M1 (name r)"
        and b: "\<forall>q. q \<noteq> name r \<longrightarrow> map_of M1 q = map_of M q" by auto
      show ?thesis
      proof (cases "p = name r")
        case True
        with a \<open>?flip\<close> show ?thesis by simp
      next
        case False
        with b have "map_of M1 p = map_of M p" by simp
        with isEnabled_cong [OF this] False show ?thesis by simp
      qed
    qed
  qed
  have dom1: "\<And>p. (map_of M1 p \<noteq> None) = (map_of M p \<noteq> None)"
  proof -
    fix p
    show "(map_of M1 p \<noteq> None) = (map_of M p \<noteq> None)"
    proof (cases ?flip)
      case False
      with eff show ?thesis by auto
    next
      case True
      with eff have a: "map_of M1 (name r) \<noteq> None"
        and b: "\<forall>q. q \<noteq> name r \<longrightarrow> map_of M1 q = map_of M q" by auto
      from True have c: "map_of M (name r) \<noteq> None" by (simp add: eligible_def)
      show ?thesis
      proof (cases "p = name r")
        case True
        with a c show ?thesis by simp
      next
        case False
        with b show ?thesis by simp
      qed
    qed
  qed
  have nw1: "set nw1 = set nw \<union> {p. ?flip \<and> p = name r}"
    using eff by (cases ?flip) auto
  have h1: "h1 = (h \<or> ?flip)"
    using eff by (cases ?flip) auto
  have whole: "auto_enable_loop saved (JArr xs) (r # rs) (M, nw, h) = ((M', nw', h'), None)"
    using step loop by simp
  have A: "\<forall>p. isEnabled M' p
      = (isEnabled M p \<or> (reported_configured (r # rs) p \<and> eligible saved xs M p))"
    unfolding en' [rule_format] en1 el1 rep by blast
  have B: "\<forall>p. (map_of M' p \<noteq> None) = (map_of M p \<noteq> None)"
    using dom' dom1 by simp
  have C: "set nw' = set nw \<union> {p. reported_configured (r # rs) p \<and> eligible saved xs M p}"
    unfolding nw' nw1 el1 rep by blast
  have D: "h' = (h \<or> (\<exists>p. reported_configured (r # rs) p \<and> eligible saved xs M p))"
    unfolding h' h1 el1 rep by blast
  from whole wt' A B C D show ?case by blast
qed


section \<open>What is persisted\<close>

lemma keys_differ: "PROVIDER_SETTINGS_KEY \<noteq> AUTO_ENABLED_KEY"
  by (simp add: PROVIDER_SETTINGS_KEY_def AUTO_ENABLED_KEY_def str_def)

lemma is_JStr_iff: "is_JStr x = (\<exists>n. x = JStr n)"
  by (cases x) auto

lemma Set_add_strings:
  "list_all is_JStr seen \<Longrightarrow> Set_add seen x = (if x \<in> set seen then seen else seen @ [x])"
  by (auto simp: Set_add_def SameValueZero_def list_all_iff is_JStr_iff)

lemma foldl_Set_add_strings:
  assumes "list_all is_JStr acc" "list_all is_JStr ys"
  shows "set (foldl Set_add acc ys) = set acc \<union> set ys
       \<and> (distinct acc \<longrightarrow> distinct (foldl Set_add acc ys))
       \<and> list_all is_JStr (foldl Set_add acc ys)"
  using assms
proof (induction ys arbitrary: acc)
  case Nil
  then show ?case by simp
next
  case (Cons y ys)
  from Cons.prems have step: "Set_add acc y = (if y \<in> set acc then acc else acc @ [y])"
    by (simp add: Set_add_strings)
  from Cons.prems step have "list_all is_JStr (Set_add acc y)" "list_all is_JStr ys"
    by auto
  from Cons.IH [OF this] step show ?case by auto
qed

lemma new_Set_strings:
  assumes "list_all is_JStr ys"
  shows "set (new_Set ys) = set ys \<and> distinct (new_Set ys) \<and> list_all is_JStr (new_Set ys)"
  using foldl_Set_add_strings [of "[]" ys] assms by (simp add: new_Set_def)

lemma to_json_strings: "list_all is_JStr ys \<Longrightarrow> to_json (JArr ys) = JArr ys"
  by (auto simp: list_all_iff is_JStr_iff intro!: map_idI)

lemma autoEnable_result:
  assumes "parse_auto_enabled (localStorage st AUTO_ENABLED_KEY) = Inr (JArr xs)"
    "auto_enable_loop (localStorage st PROVIDER_SETTINGS_KEY) (JArr xs)
       (fetchConfiguredProviders fetched) (providersStore st, [], False)
     = ((M', nw', h'), None)"
  shows "autoEnableConfiguredProviders True fetched st =
     (if h' then
        st\<lparr>providersStore := M',
           localStorage := (localStorage st)
             (PROVIDER_SETTINGS_KEY \<mapsto> JSON_stringify (JObj M'),
              AUTO_ENABLED_KEY \<mapsto> JSON_stringify (JArr (new_Set (xs @ map JStr nw'))))\<rparr>
      else st\<lparr>providersStore := M'\<rparr>)"
  using assms by (simp add: autoEnableConfiguredProviders_def Let_def js_iterate_def)

text \<open>The whole pass on a well-typed map with a well-formed history.\<close>

lemma autoEnable_characterisation:
  assumes wt: "well_typed_store (providersStore st)"
    and hw: "history_wellformed (localStorage st)"
    and st': "st' = autoEnableConfiguredProviders True fetched st"
  shows "(\<forall>p. (\<not> isEnabled (providersStore st) p \<and> isEnabled (providersStore st') p) =
              (p \<in> set LOCAL_PROVIDERS
               \<and> reported_configured (fetchConfiguredProviders fetched) p
               \<and> map_of (providersStore st) p \<noteq> None \<and> \<not> isEnabled (providersStore st) p
               \<and> (localStorage st PROVIDER_SETTINGS_KEY = None \<or> in_history (localStorage st) p)))
       \<and> ((\<exists>p. \<not> isEnabled (providersStore st) p \<and> isEnabled (providersStore st') p) \<longrightarrow>
            localStorage st' PROVIDER_SETTINGS_KEY
              = Some (JSON_stringify (JObj (providersStore st')))
            \<and> history_wellformed (localStorage st')
            \<and> (\<exists>ys. localStorage st' AUTO_ENABLED_KEY = Some (Doc (JArr ys)) \<and> distinct ys)
            \<and> (\<forall>q. in_history (localStorage st') q =
                   (in_history (localStorage st) q
                    \<or> (\<not> isEnabled (providersStore st) q \<and> isEnabled (providersStore st') q))))"
proof -
  let ?saved = "localStorage st PROVIDER_SETTINGS_KEY"
  let ?rs = "fetchConfiguredProviders fetched"
  let ?M = "providersStore st"
  from history_wellformed_parse [OF hw]
  obtain xs where prev: "parse_auto_enabled (localStorage st AUTO_ENABLED_KEY) = Inr (JArr xs)"
    and strs: "list_all is_JStr xs"
    and hist: "\<forall>p. in_history (localStorage st) p = (JStr p \<in> set xs)"
    by blast
  from auto_enable_loop_well_typed [OF wt, of ?saved xs ?rs "[]" False]
  obtain M' nw' h' where loop: "auto_enable_loop ?saved (JArr xs) ?rs (?M, [], False)
        = ((M', nw', h'), None)"
    and en': "\<forall>p. isEnabled M' p
        = (isEnabled ?M p \<or> (reported_configured ?rs p \<and> eligible ?saved xs ?M p))"
    and nw': "set nw' = {p. reported_configured ?rs p \<and> eligible ?saved xs ?M p}"
    and h': "h' = (\<exists>p. reported_configured ?rs p \<and> eligible ?saved xs ?M p)"
    by auto
  have res: "st' = (if h' then
        st\<lparr>providersStore := M',
           localStorage := (localStorage st)
             (PROVIDER_SETTINGS_KEY \<mapsto> JSON_stringify (JObj M'),
              AUTO_ENABLED_KEY \<mapsto> JSON_stringify (JArr (new_Set (xs @ map JStr nw'))))\<rparr>
      else st\<lparr>providersStore := M'\<rparr>)"
    unfolding st' using prev loop by (rule autoEnable_result)
  then have store: "providersStore st' = M'" by simp
  have flip: "\<And>p. (\<not> isEnabled ?M p \<and> isEnabled M' p)
      = (reported_configured ?rs p \<and> eligible ?saved xs ?M p)"
    unfolding en' [rule_format] by (auto simp: eligible_def)
  have first: "\<forall>p. (\<not> isEnabled ?M p \<and> isEnabled (providersStore st') p) =
              (p \<in> set LOCAL_PROVIDERS \<and> reported_configured ?rs p
               \<and> map_of ?M p \<noteq> None \<and> \<not> isEnabled ?M p
               \<and> (?saved = None \<or> in_history (localStorage st) p))"
    unfolding store flip hist [rule_format] eligible_def by blast
  have second: "localStorage st' PROVIDER_SETTINGS_KEY
              = Some (JSON_stringify (JObj (providersStore st')))
            \<and> history_wellformed (localStorage st')
            \<and> (\<exists>ys. localStorage st' AUTO_ENABLED_KEY = Some (Doc (JArr ys)) \<and> distinct ys)
            \<and> (\<forall>q. in_history (localStorage st') q =
                   (in_history (localStorage st) q
                    \<or> (\<not> isEnabled ?M q \<and> isEnabled (providersStore st') q)))"
    if "\<exists>p. \<not> isEnabled ?M p \<and> isEnabled (providersStore st') p"
  proof -
    from that have "h'" unfolding store flip h' by blast
    let ?all = "new_Set (xs @ map JStr nw')"
    have "list_all is_JStr (xs @ map JStr nw')"
      using strs by (auto simp: list_all_iff)
    from new_Set_strings [OF this]
    have all_set: "set ?all = set xs \<union> JStr ` set nw'" and all_dist: "distinct ?all"
      and all_strs: "list_all is_JStr ?all"
      by auto
    have item: "JSON_stringify (JArr ?all) = Doc (JArr ?all)"
      using to_json_strings [OF all_strs] by (simp add: JSON_stringify_def)
    from res \<open>h'\<close> item have ls': "localStorage st' = (localStorage st)
             (PROVIDER_SETTINGS_KEY \<mapsto> JSON_stringify (JObj M'),
              AUTO_ENABLED_KEY \<mapsto> Doc (JArr ?all))"
      by simp
    have a: "localStorage st' PROVIDER_SETTINGS_KEY = Some (JSON_stringify (JObj (providersStore st')))"
      unfolding ls' store using keys_differ by simp
    have b: "localStorage st' AUTO_ENABLED_KEY = Some (Doc (JArr ?all))"
      unfolding ls' by simp
    from b all_strs have c: "history_wellformed (localStorage st')"
      by (simp add: history_wellformed_def)
    have d: "\<forall>q. in_history (localStorage st') q =
                   (in_history (localStorage st) q
                    \<or> (\<not> isEnabled ?M q \<and> isEnabled (providersStore st') q))"
      unfolding store flip hist [rule_format]
      using b all_set nw' by (auto simp: in_history_def)
    from a b c d all_dist show ?thesis by blast
  qed
  from first second show ?thesis by blast
qed


text \<open>
  Claim C1 (the auto-enable policy). On a well-typed settings map and a history that is a
  list of names, the pass turns a provider from not enabled to enabled exactly when it is
  a local provider that the report marks configured via environment, is in the map and not
  enabled, and either no snapshot is persisted or its name is in the history. When the
  pass flips a provider, the snapshot it persists is the whole resulting map, and the
  history it persists is a duplicate-free list holding the previous names and every
  flipped provider.
\<close>

theorem autoEnable_policy:
  assumes "well_typed_store (providersStore st)"
    and "history_wellformed (localStorage st)"
    and "st' = autoEnableConfiguredProviders True fetched st"
  shows "(\<forall>p. (\<not> isEnabled (providersStore st) p \<and> isEnabled (providersStore st') p) =
              (p \<in> set LOCAL_PROVIDERS
               \<and> reported_configured (fetchConfiguredProviders fetched) p
               \<and> map_of (providersStore st) p \<noteq> None \<and> \<not> isEnabled (providersStore st) p
               \<and> (localStorage st PROVIDER_SETTINGS_KEY = None \<or> in_history (localStorage st) p)))
       \<and> ((\<exists>p. \<not> isEnabled (providersStore st) p \<and> isEnabled (providersStore st') p) \<longrightarrow>
            localStorage st' PROVIDER_SETTINGS_KEY
              = Some (JSON_stringify (JObj (providersStore st')))
            \<and> history_wellformed (localStorage st')
            \<and> (\<exists>ys. localStorage st' AUTO_ENABLED_KEY = Some (Doc (JArr ys)) \<and> distinct ys)
            \<and> (\<forall>q. in_history (localStorage st') q =
                   (in_history (localStorage st) q
                    \<or> (\<not> isEnabled (providersStore st) q \<and> isEnabled (providersStore st') q))))"
  using assms by (rule autoEnable_characterisation)

section \<open>Properties of the initial settings\<close>

lemma default_fold_keys:
  "fst ` set (foldl (\<lambda>initialSettings provider.
        AList.update (provider_name provider) (default_config provider) initialSettings) acc PL)
   = fst ` set acc \<union> provider_name ` set PL"
  by (induction PL arbitrary: acc) (auto simp: dom_update)

lemma default_fold_distinct:
  "distinct (map fst acc) \<Longrightarrow>
   distinct (map fst (foldl (\<lambda>initialSettings provider.
        AList.update (provider_name provider) (default_config provider) initialSettings) acc PL))"
  by (induction PL arbitrary: acc) (auto simp: distinct_update)

lemma default_fold_lookup:
  "map_of (foldl (\<lambda>initialSettings provider.
        AList.update (provider_name provider) (default_config provider) initialSettings) acc PL) n
     = Some cfg \<Longrightarrow>
   (\<exists>p \<in> set PL. provider_name p = n \<and> cfg = default_config p) \<or> map_of acc n = Some cfg"
proof (induction PL arbitrary: acc)
  case Nil
  then show ?case by simp
next
  case (Cons p PL)
  from Cons.prems have "map_of (foldl (\<lambda>initialSettings provider.
        AList.update (provider_name provider) (default_config provider) initialSettings)
        (AList.update (provider_name p) (default_config p) acc) PL) n = Some cfg"
    by simp
  from Cons.IH [OF this] show ?case
    by (auto simp: update_conv' split: if_splits)
qed

lemma default_settings_keys: "fst ` set (default_settings PL) = provider_name ` set PL"
  by (simp add: default_settings_def default_fold_keys)

lemma default_settings_distinct: "distinct (map fst (default_settings PL))"
  by (simp add: default_settings_def default_fold_distinct)

lemma default_settings_lookup:
  "map_of (default_settings PL) n = Some cfg \<Longrightarrow>
   \<exists>p \<in> set PL. provider_name p = n \<and> cfg = default_config p"
  using default_fold_lookup [of "[]" PL n cfg] by (simp add: default_settings_def)

lemma default_config_settings:
  "map_of (default_config p) (str ''settings'')
     = Some (JObj [(str ''enabled'', JBool (provider_name p \<notin> set LOCAL_PROVIDERS))])"
  by (simp add: default_config_def update_conv')

text \<open>Wrapping the property lists into objects.\<close>

lemma map_of_wrap:
  "map_of (map (\<lambda>kc. (fst kc, JObj (snd kc))) D) n = map_option JObj (map_of D n)"
  by (induction D) auto

lemma keys_wrap: "map fst (map (\<lambda>kc. (fst kc, JObj (snd kc))) D) = map fst D"
  by (induction D) auto

lemma isEnabled_wrap_default:
  assumes "map_of D n = Some (default_config p)"
  shows "isEnabled (map (\<lambda>kc. (fst kc, JObj (snd kc))) D) n
           = (provider_name p \<notin> set LOCAL_PROVIDERS)"
  using assms
  by (simp add: isEnabled_def map_of_wrap member_def default_config_settings)

lemma well_typed_wrap_default:
  "\<forall>n cfg. map_of D n = Some cfg \<longrightarrow> (\<exists>p. cfg = default_config p) \<Longrightarrow>
   distinct (map fst D) \<Longrightarrow>
   well_typed_store (map (\<lambda>kc. (fst kc, JObj (snd kc))) D)"
proof -
  assume all: "\<forall>n cfg. map_of D n = Some cfg \<longrightarrow> (\<exists>p. cfg = default_config p)"
    and dist: "distinct (map fst D)"
  have "well_typed_config (JObj (snd kc))" if "kc \<in> set D" for kc
  proof -
    from that dist have "map_of D (fst kc) = Some (snd kc)" by simp
    with all obtain p where "snd kc = default_config p" by blast
    then show ?thesis
      by (simp add: well_typed_config_def default_config_settings)
  qed
  then show ?thesis by (simp add: well_typed_store_def list_all_iff)
qed



lemma lookup_key_same_keys:
  "map_of init key = None \<Longrightarrow> map_of init' key = None \<Longrightarrow>
   lookup_key init' proto key = lookup_key init proto key"
  by (simp add: lookup_key_def)











text \<open>The function as a whole.\<close>

lemma getInitial_defaults_only:
  assumes "\<not> b \<or> ls PROVIDER_SETTINGS_KEY = None \<or> ls PROVIDER_SETTINGS_KEY = Some EmptyText
     \<or> ls PROVIDER_SETTINGS_KEY = Some Unparseable \<or> ls PROVIDER_SETTINGS_KEY = Some (Doc JNull)
     \<or> ls PROVIDER_SETTINGS_KEY = Some (Doc (JBool t)) \<or> ls PROVIDER_SETTINGS_KEY = Some (Doc (JNum r))"
  shows "getInitialProviderSettings b PL ls = Some (defaults_only PL)"
  using assms
  by (auto simp: getInitialProviderSettings_def Let_def Object_entries_def own_entries_def
      defaults_only_def)










text \<open>
  Claim C4 (first run). With no persisted snapshot the map is the one
  \<open>getInitialProviderSettings\<close> builds from the defaults. After one pass on it, a
  local provider of \<open>PROVIDER_LIST\<close> that the report marks configured via environment is
  enabled, and its name is in the persisted history.
\<close>

theorem first_run_auto_enable:
  assumes "ls PROVIDER_SETTINGS_KEY = None"
    and "history_wellformed ls"
    and "p \<in> set LOCAL_PROVIDERS"
    and "p \<in> provider_name ` set PL"
    and "reported_configured (fetchConfiguredProviders fetched) p"
    and "getInitialProviderSettings True PL ls = Some initialSettings"
    and "st = \<lparr>providersStore = initialSettings, localStorage = ls\<rparr>"
    and "st' = autoEnableConfiguredProviders True fetched st"
  shows "isEnabled (providersStore st') p \<and> in_history (localStorage st') p"
proof -
  let ?D = "default_settings PL"
  let ?wrap = "map (\<lambda>kc. (fst kc, JObj (snd kc)))"
  from assms(1) have "getInitialProviderSettings True PL ls = Some (defaults_only PL)"
    by (simp add: getInitial_defaults_only)
  with assms(6) have init: "initialSettings = ?wrap ?D" by (simp add: defaults_only_def)
  with assms(7) have store: "providersStore st = ?wrap ?D" and ls: "localStorage st = ls"
    by simp_all
  have "\<forall>n cfg. map_of ?D n = Some cfg \<longrightarrow> (\<exists>q. cfg = default_config q)"
    using default_settings_lookup by blast
  then have wt: "well_typed_store (providersStore st)"
    unfolding store using default_settings_distinct by (rule well_typed_wrap_default)
  from assms(4) have "p \<in> fst ` set ?D" by (simp add: default_settings_keys)
  then obtain cfg where cfg: "map_of ?D p = Some cfg"
    by (metis domD dom_map_of_conv_image_fst)
  from default_settings_lookup [OF this]
  obtain q where q: "provider_name q = p" "cfg = default_config q" by blast
  with cfg isEnabled_wrap_default [of ?D p q] assms(3)
  have dis: "\<not> isEnabled (providersStore st) p" by (simp add: store)
  from cfg have pres: "map_of (providersStore st) p \<noteq> None" by (simp add: store map_of_wrap)
  from assms(2) ls have hw: "history_wellformed (localStorage st)" by simp
  note ch = autoEnable_characterisation [OF wt hw assms(8)]
  from ch have "(\<not> isEnabled (providersStore st) p \<and> isEnabled (providersStore st') p) =
      (p \<in> set LOCAL_PROVIDERS
       \<and> reported_configured (fetchConfiguredProviders fetched) p
       \<and> map_of (providersStore st) p \<noteq> None \<and> \<not> isEnabled (providersStore st) p
       \<and> (localStorage st PROVIDER_SETTINGS_KEY = None \<or> in_history (localStorage st) p))"
    by blast
  with assms(1,3,5) dis pres ls
  have flip: "\<not> isEnabled (providersStore st) p \<and> isEnabled (providersStore st') p"
    by simp
  with ch have "in_history (localStorage st') p" by blast
  with flip show ?thesis by simp
qed


section \<open>Properties of the settings update\<close>

lemma assign_lookup:
  "distinct (map fst source) \<Longrightarrow>
   map_of (assign target source) k
     = (case map_of source k of None \<Rightarrow> map_of target k | Some v \<Rightarrow> Some v)"
proof (induction source arbitrary: target)
  case Nil
  then show ?case by (simp add: assign_def)
next
  case (Cons kv source)
  from Cons.prems have dist: "distinct (map fst source)" and fresh: "fst kv \<notin> fst ` set source"
    by auto
  from fresh have none: "map_of source (fst kv) = None" by (simp add: map_of_eq_None_iff)
  have "assign target (kv # source) = assign (AList.update (fst kv) (snd kv) target) source"
    by (simp add: assign_def)
  with Cons.IH [OF dist, of "AList.update (fst kv) (snd kv) target"] none show ?case
    by (cases kv) (auto simp: update_conv' split: option.splits)
qed

lemma updateAutoEnabledTracking_history:
  assumes "history_wellformed (localStorage st)"
    and "st' = updateAutoEnabledTracking True p en st"
  shows "history_wellformed (localStorage st')
     \<and> (\<forall>q. in_history (localStorage st') q
            = (if truthy en then q = p \<or> in_history (localStorage st) q
               else q \<noteq> p \<and> in_history (localStorage st) q))
     \<and> (\<forall>k. k \<noteq> AUTO_ENABLED_KEY \<longrightarrow> localStorage st' k = localStorage st k)
     \<and> providersStore st' = providersStore st"
proof -
  from history_wellformed_parse [OF assms(1)]
  obtain xs where prev: "parse_auto_enabled (localStorage st AUTO_ENABLED_KEY) = Inr (JArr xs)"
    and strs: "list_all is_JStr xs"
    and hist: "\<forall>q. in_history (localStorage st) q = (JStr q \<in> set xs)"
    by blast
  show ?thesis
  proof (cases "truthy en")
    case True
    show ?thesis
    proof (cases "JStr p \<in> set xs")
      case True
      with \<open>truthy en\<close> prev assms(2) have "st' = st"
        by (simp add: updateAutoEnabledTracking_def js_includes_def)
      with True \<open>truthy en\<close> hist assms(1) show ?thesis by auto
    next
      case False
      from strs have "list_all is_JStr (xs @ [JStr p])" by simp
      from to_json_strings [OF this]
      have item: "JSON_stringify (JArr (xs @ [JStr p])) = Doc (JArr (xs @ [JStr p]))"
        by (simp add: JSON_stringify_def)
      from False \<open>truthy en\<close> prev assms(2) item
      have st': "st' = st\<lparr>localStorage := (localStorage st)
                   (AUTO_ENABLED_KEY \<mapsto> Doc (JArr (xs @ [JStr p])))\<rparr>"
        by (simp add: updateAutoEnabledTracking_def js_includes_def)
      with \<open>truthy en\<close> hist strs show ?thesis
        by (auto simp: history_wellformed_def in_history_def)
    qed
  next
    case False
    let ?ys = "filter (\<lambda>n. n \<noteq> JStr p) xs"
    from strs have ystrs: "list_all is_JStr ?ys" by (simp add: list_all_iff)
    from to_json_strings [OF this]
    have item: "JSON_stringify (JArr ?ys) = Doc (JArr ?ys)"
      by (simp add: JSON_stringify_def)
    from False prev assms(2) item
    have st': "st' = st\<lparr>localStorage := (localStorage st)
                 (AUTO_ENABLED_KEY \<mapsto> Doc (JArr ?ys))\<rparr>"
      by (simp add: updateAutoEnabledTracking_def)
    with False hist ystrs show ?thesis
      by (auto simp: history_wellformed_def in_history_def)
  qed
qed

lemma updateProviderSettings_unfold:
  assumes "map_of (providersStore st) p = Some c"
    and "member c (str ''settings'') = Inr cs"
  shows "updateProviderSettings True p settings st =
     (let merged = assign (own_entries cs) (own_entries settings);
          st2 = st\<lparr>providersStore :=
                     AList.update p
                       (JObj (AList.update (str ''settings'') (JObj merged) (own_entries c)))
                       (providersStore st),
                   localStorage := (localStorage st)
                     (PROVIDER_SETTINGS_KEY \<mapsto>
                        JSON_stringify
                          (JObj (AList.update p
                             (JObj (AList.update (str ''settings'') (JObj merged) (own_entries c)))
                             (providersStore st))))\<rparr>;
          en = (case map_of merged (str ''enabled'') of None \<Rightarrow> JUndefined | Some v \<Rightarrow> v)
      in if p \<in> set LOCAL_PROVIDERS \<and> en \<noteq> JUndefined
         then (updateAutoEnabledTracking True p en st2, None)
         else (st2, None))"
  using assms
  by (simp add: updateProviderSettings_def Let_def member_def)


text \<open>
  Claim C8, amended. For a provider of the map, \<open>updateProviderSettings\<close> returns
  normally; the new \<open>settings\<close> of the provider hold every property of the partial
  settings and, for the other names, what the old \<open>settings\<close> held; the other providers
  are untouched; and the snapshot persisted is the whole new map. The history is updated
  when the provider is local and the merged \<open>settings\<close> have a defined \<open>enabled\<close>,
  whether or not the partial settings carry it: the name is added when the merged value is
  truthy and removed otherwise. In every other case the history item is left as it is.
\<close>

theorem updateProviderSettings_merge:
  assumes "map_of (providersStore st) p = Some c"
    and "member c (str ''settings'') = Inr cs"
    and "distinct (map fst partial)"
    and "history_wellformed (localStorage st)"
    and "updateProviderSettings True p (JObj partial) st = (st', err)"
  shows "err = None
     \<and> (\<exists>merged.
          map_of (providersStore st') p
            = Some (JObj (AList.update (str ''settings'') (JObj merged) (own_entries c)))
          \<and> (\<forall>k. map_of merged k
                 = (case map_of partial k of
                      None \<Rightarrow> map_of (own_entries cs) k
                    | Some v \<Rightarrow> Some v))
          \<and> (if p \<in> set LOCAL_PROVIDERS
                 \<and> map_of merged (str ''enabled'') \<noteq> None
                 \<and> map_of merged (str ''enabled'') \<noteq> Some JUndefined
              then \<forall>q. in_history (localStorage st') q
                     = (if isEnabled (providersStore st') p
                        then q = p \<or> in_history (localStorage st) q
                        else q \<noteq> p \<and> in_history (localStorage st) q)
              else localStorage st' AUTO_ENABLED_KEY = localStorage st AUTO_ENABLED_KEY))
     \<and> (\<forall>q. q \<noteq> p \<longrightarrow> map_of (providersStore st') q = map_of (providersStore st) q)
     \<and> localStorage st' PROVIDER_SETTINGS_KEY
         = Some (JSON_stringify (JObj (providersStore st')))"
proof -
  let ?merged = "assign (own_entries cs) partial"
  let ?entry = "JObj (AList.update (str ''settings'') (JObj ?merged) (own_entries c))"
  let ?store = "AList.update p ?entry (providersStore st)"
  let ?st2 = "st\<lparr>providersStore := ?store,
                  localStorage := (localStorage st)
                    (PROVIDER_SETTINGS_KEY \<mapsto> JSON_stringify (JObj ?store))\<rparr>"
  let ?en = "case map_of ?merged (str ''enabled'') of None \<Rightarrow> JUndefined | Some v \<Rightarrow> v"
  let ?track = "p \<in> set LOCAL_PROVIDERS \<and> ?en \<noteq> JUndefined"
  have look: "\<forall>k. map_of ?merged k
                 = (case map_of partial k of
                      None \<Rightarrow> map_of (own_entries cs) k
                    | Some v \<Rightarrow> Some v)"
    using assms(3) by (simp add: assign_lookup)
  have res: "(st', err) = (if ?track then (updateAutoEnabledTracking True p ?en ?st2, None)
                           else (?st2, None))"
    using updateProviderSettings_unfold [OF assms(1,2), of "JObj partial"] assms(5)
    by (simp add: Let_def own_entries_def)
  then have err: "err = None" by (simp split: if_splits)
  have hw2: "history_wellformed (localStorage ?st2)"
    using assms(4) keys_differ by (simp add: history_wellformed_def)
  have h2: "\<And>q. in_history (localStorage ?st2) q = in_history (localStorage st) q"
    using keys_differ by (simp add: in_history_def)
  have store': "providersStore st' = ?store"
    and snap: "localStorage st' PROVIDER_SETTINGS_KEY = Some (JSON_stringify (JObj ?store))"
    and hist: "if ?track
               then \<forall>q. in_history (localStorage st') q
                      = (if truthy ?en then q = p \<or> in_history (localStorage st) q
                         else q \<noteq> p \<and> in_history (localStorage st) q)
               else localStorage st' AUTO_ENABLED_KEY = localStorage st AUTO_ENABLED_KEY"
  proof -
    show "providersStore st' = ?store"
    proof (cases ?track)
      case True
      with res have "st' = updateAutoEnabledTracking True p ?en ?st2" by simp
      from updateAutoEnabledTracking_history [OF hw2 this] show ?thesis by simp
    next
      case False
      with res show ?thesis by auto
    qed
    show "localStorage st' PROVIDER_SETTINGS_KEY = Some (JSON_stringify (JObj ?store))"
    proof (cases ?track)
      case True
      with res have "st' = updateAutoEnabledTracking True p ?en ?st2" by simp
      from updateAutoEnabledTracking_history [OF hw2 this] keys_differ show ?thesis by simp
    next
      case False
      with res show ?thesis by auto
    qed
    show "if ?track
               then \<forall>q. in_history (localStorage st') q
                      = (if truthy ?en then q = p \<or> in_history (localStorage st) q
                         else q \<noteq> p \<and> in_history (localStorage st) q)
               else localStorage st' AUTO_ENABLED_KEY = localStorage st AUTO_ENABLED_KEY"
    proof (cases ?track)
      case True
      with res have "st' = updateAutoEnabledTracking True p ?en ?st2" by simp
      from updateAutoEnabledTracking_history [OF hw2 this] True show ?thesis
        unfolding h2 by simp
    next
      case False
      with res have "st' = ?st2" by auto
      with False keys_differ show ?thesis by auto
    qed
  qed
  have entry: "map_of (providersStore st') p = Some ?entry"
    unfolding store' by (simp add: update_conv')
  have en_iff: "isEnabled (providersStore st') p = truthy ?en"
    unfolding store' by (simp add: isEnabled_def update_conv' member_def)
  have track_iff: "?track = (p \<in> set LOCAL_PROVIDERS
                 \<and> map_of ?merged (str ''enabled'') \<noteq> None
                 \<and> map_of ?merged (str ''enabled'') \<noteq> Some JUndefined)"
    by (auto split: option.splits)
  have others: "\<forall>q. q \<noteq> p \<longrightarrow> map_of (providersStore st') q = map_of (providersStore st) q"
    unfolding store' by (simp add: update_conv')
  from hist have hist': "if p \<in> set LOCAL_PROVIDERS
                 \<and> map_of ?merged (str ''enabled'') \<noteq> None
                 \<and> map_of ?merged (str ''enabled'') \<noteq> Some JUndefined
              then \<forall>q. in_history (localStorage st') q
                     = (if isEnabled (providersStore st') p
                        then q = p \<or> in_history (localStorage st) q
                        else q \<noteq> p \<and> in_history (localStorage st) q)
              else localStorage st' AUTO_ENABLED_KEY = localStorage st AUTO_ENABLED_KEY"
    unfolding en_iff track_iff [symmetric] .
  from snap have snap': "localStorage st' PROVIDER_SETTINGS_KEY
         = Some (JSON_stringify (JObj (providersStore st')))"
    unfolding store' .
  from err entry look hist' others snap' show ?thesis by blast
qed

lemmas update_example_defs =
  enabled_state_def enabled_store_def baseUrl_update_def config_with_def empty_storage_def
  scenario_B_state_def scenario_B_store_def
  LOCAL_PROVIDERS_def PROVIDER_SETTINGS_KEY_def AUTO_ENABLED_KEY_def

text \<open>
  Claim C8 as stated fails: an update of a local provider that carries only \<open>baseUrl\<close>
  does not touch \<open>enabled\<close>, and yet it puts the provider into the history, because
  the code tests the merged \<open>settings.enabled\<close>, not the partial settings.
\<close>

theorem update_without_enabled_changes_history:
  "map_of (own_entries baseUrl_update) (str ''enabled'') = None
   \<and> str ''Ollama'' \<in> set LOCAL_PROVIDERS
   \<and> \<not> in_history (localStorage enabled_state) (str ''Ollama'')
   \<and> in_history
        (localStorage (fst (updateProviderSettings True (str ''Ollama'') baseUrl_update
                              enabled_state)))
        (str ''Ollama'')"
  by (simp add: updateProviderSettings_def updateAutoEnabledTracking_def parse_auto_enabled_def
      js_includes_def JSON_stringify_def assign_def member_def own_entries_def in_history_def
      Let_def update_example_defs str_def)


section \<open>The examples, evaluated\<close>

lemmas state_defs =
  scenario_A_state_def scenario_A_store_def scenario_B_state_def scenario_B_store_def previously_auto_state_def
  config_with_def empty_storage_def ollama_report_def unconfigured_def LOCAL_PROVIDERS_def
  PROVIDER_SETTINGS_KEY_def AUTO_ENABLED_KEY_def ollama_detected_def nothing_detected_def
  example_PROVIDER_LIST_def

lemmas eval_defs =
  autoEnableConfiguredProviders_def parse_auto_enabled_def auto_enable_entry_def
  js_includes_def js_iterate_def member_def enabled_config_def own_entries_def
  getInitialProviderSettings_def default_settings_def default_config_def provider_entries_def
  new_Set_def Set_add_def SameValueZero_def JSON_stringify_def
  lookup_key_def read_settings_def Object_prototype_methods_def Object_prototype_names_def
  defaults_only_def


lemmas update_eval_defs =
  updateProviderSettings_def updateAutoEnabledTracking_def assign_def Let_def
  user_disabled_state_def disable_update_def


theorem autoEnable_policy_witness:
  "well_typed_store (providersStore previously_auto_state)
   \<and> history_wellformed (localStorage previously_auto_state)
   \<and> in_history (localStorage previously_auto_state) (str ''Ollama'')
   \<and> \<not> isEnabled (providersStore previously_auto_state) (str ''Ollama'')
   \<and> isEnabled (providersStore
        (autoEnableConfiguredProviders True ollama_detected previously_auto_state)) (str ''Ollama'')
   \<and> \<not> isEnabled (providersStore
        (autoEnableConfiguredProviders True ollama_detected previously_auto_state))
        (str ''LMStudio'')
   \<and> localStorage (autoEnableConfiguredProviders True ollama_detected previously_auto_state)
        PROVIDER_SETTINGS_KEY
       = Some (JSON_stringify (JObj (providersStore
           (autoEnableConfiguredProviders True ollama_detected previously_auto_state))))"
proof -
  let ?st' = "autoEnableConfiguredProviders True ollama_detected previously_auto_state"
  have wt: "well_typed_store (providersStore previously_auto_state)"
    by (simp add: well_typed_store_def well_typed_config_def state_defs str_def)
  have hw: "history_wellformed (localStorage previously_auto_state)"
    by (simp add: history_wellformed_def state_defs str_def)
  have inh: "in_history (localStorage previously_auto_state) (str ''Ollama'')"
    by (simp add: in_history_def state_defs str_def)
  have loc: "str ''Ollama'' \<in> set LOCAL_PROVIDERS" "str ''LMStudio'' \<in> set LOCAL_PROVIDERS"
    by (simp_all add: LOCAL_PROVIDERS_def)
  have rep: "reported_configured (fetchConfiguredProviders ollama_detected) (str ''Ollama'')"
    "\<not> reported_configured (fetchConfiguredProviders ollama_detected) (str ''LMStudio'')"
    by (simp_all add: reported_configured_def state_defs str_def)
  have pres: "map_of (providersStore previously_auto_state) (str ''Ollama'') \<noteq> None"
    by (simp add: state_defs str_def)
  have dis: "\<not> isEnabled (providersStore previously_auto_state) (str ''Ollama'')"
    "\<not> isEnabled (providersStore previously_auto_state) (str ''LMStudio'')"
    by (simp_all add: isEnabled_def member_def state_defs str_def)
  note pol = autoEnable_policy [OF wt hw refl, of ollama_detected]
  from pol have "(\<not> isEnabled (providersStore previously_auto_state) (str ''Ollama'')
        \<and> isEnabled (providersStore ?st') (str ''Ollama''))
      = (str ''Ollama'' \<in> set LOCAL_PROVIDERS
         \<and> reported_configured (fetchConfiguredProviders ollama_detected) (str ''Ollama'')
         \<and> map_of (providersStore previously_auto_state) (str ''Ollama'') \<noteq> None
         \<and> \<not> isEnabled (providersStore previously_auto_state) (str ''Ollama'')
         \<and> (localStorage previously_auto_state PROVIDER_SETTINGS_KEY = None
            \<or> in_history (localStorage previously_auto_state) (str ''Ollama'')))"
    by blast
  with loc rep pres dis inh have flip: "isEnabled (providersStore ?st') (str ''Ollama'')"
    by simp
  from pol have "(\<not> isEnabled (providersStore previously_auto_state) (str ''LMStudio'')
        \<and> isEnabled (providersStore ?st') (str ''LMStudio''))
      = (str ''LMStudio'' \<in> set LOCAL_PROVIDERS
         \<and> reported_configured (fetchConfiguredProviders ollama_detected) (str ''LMStudio'')
         \<and> map_of (providersStore previously_auto_state) (str ''LMStudio'') \<noteq> None
         \<and> \<not> isEnabled (providersStore previously_auto_state) (str ''LMStudio'')
         \<and> (localStorage previously_auto_state PROVIDER_SETTINGS_KEY = None
            \<or> in_history (localStorage previously_auto_state) (str ''LMStudio'')))"
    by blast
  with rep dis have keep: "\<not> isEnabled (providersStore ?st') (str ''LMStudio'')"
    by simp
  from pol flip dis have "localStorage ?st' PROVIDER_SETTINGS_KEY
       = Some (JSON_stringify (JObj (providersStore ?st')))"
    by blast
  with wt hw inh dis flip keep show ?thesis by simp
qed

theorem autoEnable_never_disables_witness:
  "isEnabled (providersStore scenario_A_state) (str ''OpenAI'')
   \<and> isEnabled (providersStore (autoEnableConfiguredProviders True ollama_detected scenario_A_state))
       (str ''OpenAI'')
   \<and> map_of (providersStore (autoEnableConfiguredProviders True ollama_detected scenario_A_state))
       (str ''Ollama'')
      \<noteq> map_of (providersStore scenario_A_state) (str ''Ollama'')
   \<and> enabled_field
       (providersStore (autoEnableConfiguredProviders True ollama_detected scenario_A_state))
       (str ''Ollama'') = Some (JBool True)"
proof -
  have en: "isEnabled (providersStore scenario_A_state) (str ''OpenAI'')"
    by (simp add: isEnabled_def eval_defs state_defs str_def)
  have ch: "map_of (providersStore (autoEnableConfiguredProviders True ollama_detected scenario_A_state))
       (str ''Ollama'')
      \<noteq> map_of (providersStore scenario_A_state) (str ''Ollama'')"
    by (simp add: eval_defs state_defs str_def)
  from en ch
    autoEnable_never_disables [of scenario_A_state "str ''OpenAI''" True ollama_detected]
    autoEnable_never_disables [of scenario_A_state "str ''Ollama''" True ollama_detected]
  show ?thesis by blast
qed

theorem autoEnable_sticky_disable_witness:
  "localStorage scenario_B_state PROVIDER_SETTINGS_KEY \<noteq> None
   \<and> history_wellformed (localStorage scenario_B_state)
   \<and> \<not> in_history (localStorage scenario_B_state) (str ''Ollama'')
   \<and> \<not> isEnabled (providersStore scenario_B_state) (str ''Ollama'')
   \<and> reported_configured (fetchConfiguredProviders ollama_detected) (str ''Ollama'')
   \<and> \<not> isEnabled
        (providersStore (autoEnableConfiguredProviders True ollama_detected scenario_B_state))
        (str ''Ollama'')
   \<and> localStorage user_disabled_state PROVIDER_SETTINGS_KEY \<noteq> None
   \<and> history_wellformed (localStorage user_disabled_state)
   \<and> \<not> in_history (localStorage user_disabled_state) (str ''Ollama'')
   \<and> \<not> isEnabled (providersStore user_disabled_state) (str ''Ollama'')
   \<and> \<not> isEnabled
        (providersStore (autoEnableConfiguredProviders True ollama_detected user_disabled_state))
        (str ''Ollama'')"
proof -
  have a: "localStorage scenario_B_state PROVIDER_SETTINGS_KEY \<noteq> None"
    by (simp add: state_defs str_def)
  have b: "history_wellformed (localStorage scenario_B_state)"
    by (simp add: history_wellformed_def state_defs str_def)
  have c: "\<not> in_history (localStorage scenario_B_state) (str ''Ollama'')"
    by (simp add: in_history_def state_defs str_def)
  have d: "\<not> isEnabled (providersStore scenario_B_state) (str ''Ollama'')"
    by (simp add: isEnabled_def member_def state_defs str_def)
  have e: "reported_configured (fetchConfiguredProviders ollama_detected) (str ''Ollama'')"
    by (simp add: reported_configured_def state_defs str_def)
  have a': "localStorage user_disabled_state PROVIDER_SETTINGS_KEY \<noteq> None"
    by (simp add: update_eval_defs eval_defs state_defs str_def)
  have h: "localStorage user_disabled_state AUTO_ENABLED_KEY = Some (Doc (JArr []))"
    by (simp add: update_eval_defs eval_defs state_defs str_def)
  from h have b': "history_wellformed (localStorage user_disabled_state)"
    by (simp add: history_wellformed_def)
  from h have c': "\<not> in_history (localStorage user_disabled_state) (str ''Ollama'')"
    by (simp add: in_history_def)
  have d': "\<not> isEnabled (providersStore user_disabled_state) (str ''Ollama'')"
    by (simp add: isEnabled_def update_eval_defs eval_defs state_defs str_def)
  from a b c d e a' b' c' d'
    autoEnable_sticky_disable [OF a b c d, of True ollama_detected]
    autoEnable_sticky_disable [OF a' b' c' d', of True ollama_detected]
  show ?thesis by simp
qed

theorem first_run_auto_enable_witness:
  "empty_storage PROVIDER_SETTINGS_KEY = None
   \<and> history_wellformed empty_storage
   \<and> str ''Ollama'' \<in> set LOCAL_PROVIDERS
   \<and> str ''Ollama'' \<in> provider_name ` set example_PROVIDER_LIST
   \<and> reported_configured (fetchConfiguredProviders ollama_detected) (str ''Ollama'')
   \<and> getInitialProviderSettings True example_PROVIDER_LIST empty_storage
        = Some (providersStore scenario_A_state)
   \<and> isEnabled (providersStore (autoEnableConfiguredProviders True ollama_detected scenario_A_state))
       (str ''Ollama'')
   \<and> in_history (localStorage (autoEnableConfiguredProviders True ollama_detected scenario_A_state))
       (str ''Ollama'')
   \<and> providersStore (autoEnableConfiguredProviders True ollama_detected scenario_A_state) =
       [config_with (str ''OpenAI'') True, config_with (str ''Ollama'') True,
        config_with (str ''LMStudio'') False, config_with (str ''OpenAILike'') False]
   \<and> localStorage (autoEnableConfiguredProviders True ollama_detected scenario_A_state)
        AUTO_ENABLED_KEY = Some (Doc (JArr [JStr (str ''Ollama'')]))"
proof -
  have a: "empty_storage PROVIDER_SETTINGS_KEY = None" by (simp add: empty_storage_def)
  have b: "history_wellformed empty_storage"
    by (simp add: history_wellformed_def empty_storage_def)
  have c: "str ''Ollama'' \<in> set LOCAL_PROVIDERS" by (simp add: LOCAL_PROVIDERS_def)
  have d: "str ''Ollama'' \<in> provider_name ` set example_PROVIDER_LIST"
    by (simp add: example_PROVIDER_LIST_def)
  have e: "reported_configured (fetchConfiguredProviders ollama_detected) (str ''Ollama'')"
    by (simp add: reported_configured_def state_defs str_def)
  have f: "getInitialProviderSettings True example_PROVIDER_LIST empty_storage
      = Some scenario_A_store"
    by (simp add: eval_defs state_defs str_def)
  have f': "scenario_A_state = \<lparr>providersStore = scenario_A_store, localStorage = empty_storage\<rparr>"
    by (simp add: scenario_A_state_def)
  have f'': "getInitialProviderSettings True example_PROVIDER_LIST empty_storage
      = Some (providersStore scenario_A_state)"
    using f by (simp add: scenario_A_state_def)
  have g: "providersStore (autoEnableConfiguredProviders True ollama_detected scenario_A_state) =
       [config_with (str ''OpenAI'') True, config_with (str ''Ollama'') True,
        config_with (str ''LMStudio'') False, config_with (str ''OpenAILike'') False]"
    by (simp add: eval_defs state_defs str_def)
  have h: "localStorage (autoEnableConfiguredProviders True ollama_detected scenario_A_state)
        AUTO_ENABLED_KEY = Some (Doc (JArr [JStr (str ''Ollama'')]))"
    by (simp add: eval_defs state_defs str_def)
  from a b c d e f'' g h first_run_auto_enable [OF a b c d e f f' refl]
  show ?thesis by simp
qed

theorem autoEnable_no_flip_no_change_witness:
  "providersStore (autoEnableConfiguredProviders True ollama_detected scenario_B_state)
     = providersStore scenario_B_state
   \<and> autoEnableConfiguredProviders True ollama_detected scenario_B_state = scenario_B_state
   \<and> list_all (\<lambda>r. \<not> isConfigured r) (fetchConfiguredProviders nothing_detected)
   \<and> autoEnableConfiguredProviders True nothing_detected scenario_A_state = scenario_A_state"
proof -
  have same: "providersStore (autoEnableConfiguredProviders True ollama_detected scenario_B_state)
      = providersStore scenario_B_state"
    by (simp add: eval_defs state_defs str_def)
  then have a: "\<forall>p. isEnabled (providersStore
            (autoEnableConfiguredProviders True ollama_detected scenario_B_state)) p
        = isEnabled (providersStore scenario_B_state) p"
    by simp
  have none: "list_all (\<lambda>r. \<not> isConfigured r) (fetchConfiguredProviders nothing_detected)"
    by (simp add: nothing_detected_def unconfigured_def)
  then have b: "\<forall>r \<in> set (fetchConfiguredProviders nothing_detected). \<not> isConfigured r"
    by (simp add: list_all_iff)
  from same none a b
    autoEnable_no_flip_no_change [of True ollama_detected scenario_B_state]
    autoEnable_no_flip_no_change [of True nothing_detected scenario_A_state]
  show ?thesis by blast
qed



theorem updateProviderSettings_merge_witness:
  "map_of (providersStore scenario_B_state) (str ''LMStudio'')
     = Some (snd (config_with (str ''LMStudio'') False))
   \<and> distinct (map fst enable_update)
   \<and> history_wellformed (localStorage scenario_B_state)
   \<and> \<not> in_history (localStorage scenario_B_state) (str ''LMStudio'')
   \<and> snd (updateProviderSettings True (str ''LMStudio'') (JObj enable_update) scenario_B_state)
       = None
   \<and> isEnabled
       (providersStore (fst (updateProviderSettings True (str ''LMStudio'') (JObj enable_update)
                               scenario_B_state)))
       (str ''LMStudio'')
   \<and> in_history
       (localStorage (fst (updateProviderSettings True (str ''LMStudio'') (JObj enable_update)
                             scenario_B_state)))
       (str ''LMStudio'')
   \<and> localStorage (fst (updateProviderSettings True (str ''LMStudio'') (JObj enable_update)
                           scenario_B_state)) PROVIDER_SETTINGS_KEY
       = Some (JSON_stringify (JObj (providersStore
           (fst (updateProviderSettings True (str ''LMStudio'') (JObj enable_update)
                   scenario_B_state)))))"
proof -
  let ?p = "str ''LMStudio''"
  let ?c = "snd (config_with ?p False)"
  let ?cs = "JObj [(str ''enabled'', JBool False)]"
  let ?r = "updateProviderSettings True ?p (JObj enable_update) scenario_B_state"
  have a: "map_of (providersStore scenario_B_state) ?p = Some ?c"
    by (simp add: state_defs str_def)
  have b: "member ?c (str ''settings'') = Inr ?cs"
    by (simp add: member_def config_with_def str_def)
  have c: "distinct (map fst enable_update)" by (simp add: enable_update_def)
  have d: "history_wellformed (localStorage scenario_B_state)"
    by (simp add: history_wellformed_def state_defs str_def)
  have e: "\<not> in_history (localStorage scenario_B_state) ?p"
    by (simp add: in_history_def state_defs str_def)
  have f: "?r = (fst ?r, snd ?r)" by simp
  have loc: "?p \<in> set LOCAL_PROVIDERS" by (simp add: LOCAL_PROVIDERS_def)
  from updateProviderSettings_merge [OF a b c d f]
  obtain merged where err: "snd ?r = None"
    and entry: "map_of (providersStore (fst ?r)) ?p
            = Some (JObj (AList.update (str ''settings'') (JObj merged) (own_entries ?c)))"
    and look: "\<forall>k. map_of merged k
                 = (case map_of enable_update k of
                      None \<Rightarrow> map_of (own_entries ?cs) k
                    | Some v \<Rightarrow> Some v)"
    and hist: "if ?p \<in> set LOCAL_PROVIDERS
                 \<and> map_of merged (str ''enabled'') \<noteq> None
                 \<and> map_of merged (str ''enabled'') \<noteq> Some JUndefined
              then \<forall>q. in_history (localStorage (fst ?r)) q
                     = (if isEnabled (providersStore (fst ?r)) ?p
                        then q = ?p \<or> in_history (localStorage scenario_B_state) q
                        else q \<noteq> ?p \<and> in_history (localStorage scenario_B_state) q)
              else localStorage (fst ?r) AUTO_ENABLED_KEY
                     = localStorage scenario_B_state AUTO_ENABLED_KEY"
    and snap: "localStorage (fst ?r) PROVIDER_SETTINGS_KEY
         = Some (JSON_stringify (JObj (providersStore (fst ?r))))"
    by blast
  from look have en: "map_of merged (str ''enabled'') = Some (JBool True)"
    by (simp add: enable_update_def)
  with entry have on: "isEnabled (providersStore (fst ?r)) ?p"
    by (simp add: isEnabled_def member_def update_conv')
  from hist loc en on have "in_history (localStorage (fst ?r)) ?p" by simp
  with a c d e err on snap show ?thesis by simp
qed

end
